theory Spec2Isabelle
  imports Complex_Main "HOL-Library.Word"
begin

section \<open>Data model shared by the bot's entry points\<close>

text \<open>
  The repository holds the same Telegram bot in several entry points. The development
  embeds \<^verbatim>\<open>src/index.js\<close> (hourly session sweep, 50 MiB ceiling, images stored as bare
  buffers) and \<^verbatim>\<open>src/unnamed/part_001\<close> (express entry point, 45 MiB ceiling, images stored
  with their pixel dimensions). Definitions of the second file carry the suffix \<open>_p1\<close>.
  A third file, \<^verbatim>\<open>src/unnamed/part_000\<close>, is an earlier copy without the limits; its
  \<^verbatim>\<open>start\<close> handler holds an unterminated string literal, so the file does not load, and
  it is not embedded.

  A Node \<^verbatim>\<open>Buffer\<close> is a list of bytes. Everything the handlers obtain from outside
  (Telegram's file service, the HTTP download, sharp, pdfkit's byte output, the delivery
  of the finished document) is a field of the record \<open>env\<close>; a field that yields \<open>None\<close>
  (or \<open>False\<close>) stands for the promise rejecting, that is for the exception the
  surrounding \<^verbatim>\<open>try\<close> catches. Handlers are run one at a time: the interleaving of two
  handlers at an \<^verbatim>\<open>await\<close> is not part of this model. \<^verbatim>\<open>console\<close> output is kept
  only for caught errors; \<^verbatim>\<open>ctx.reply\<close> is taken to deliver its message.
\<close>

type_synonym bytes = "8 word list"
type_synonym user_id = int
type_synonym file_id = string
type_synonym url = string

text \<open>The exceptions a handler meets, by the step that threw.\<close>

datatype failure =
    LinkFailed
  | FetchFailed
  | DecodeFailed
  | MetadataFailed
  | SizeLimitExceeded
  | SendFailed

text \<open>
  Where an image is drawn: \<^verbatim>\<open>{fit: [500, 700], align: 'center', valign: 'center'}\<close> in
  \<^verbatim>\<open>index.js\<close>, \<^verbatim>\<open>(0, 0, {width, height})\<close> in \<^verbatim>\<open>part_001\<close>.
\<close>

datatype placement =
    FitCentered nat nat
  | AtOrigin rat rat

text \<open>The calls made on the \<^verbatim>\<open>PDFDocument\<close>; \<open>NewDocument\<close> carries \<^verbatim>\<open>autoFirstPage\<close>.\<close>

datatype pdf_op =
    NewDocument bool
  | AddPage "(rat \<times> rat) option"
  | Image bytes placement
  | EndDocument

text \<open>The messages the bot sends with \<^verbatim>\<open>ctx.reply\<close>, by meaning.\<close>

datatype reply =
    MaxReached
  | Processing
  | ImageAdded nat
  | ProcessFailed
  | OnlyJpegPng
  | NoImagesToConvert
  | CreatingPdf
  | PdfFailed failure
  | Cleared

text \<open>
  What a handler does that is visible outside the session, in the order it happens:
  replies, the document sent, every call to an external service, every call on the
  document writer, the error a \<^verbatim>\<open>catch\<close> block logs, and an exception that no
  \<^verbatim>\<open>catch\<close> block receives.
\<close>

datatype effect =
    SendReply reply
  | SendDocument bytes
  | CallGetFileLink file_id
  | CallFetch url
  | CallSharp bytes
  | CallMetadata bytes
  | PdfOp pdf_op
  | LogError failure
  | Uncaught failure

record env =
  getFileLink :: "file_id \<Rightarrow> url option"
  fetch_buffer :: "url \<Rightarrow> bytes option"
  sharp_rotate_jpeg :: "bytes \<Rightarrow> bytes option"
  sharp_toBuffer :: "bytes \<Rightarrow> bytes option"
  sharp_metadata :: "bytes \<Rightarrow> (nat \<times> nat) option"
  pdf_emit :: "pdf_op list \<Rightarrow> bytes list"
  replyWithDocument :: "bytes \<Rightarrow> bool"

text \<open>
  \<open>fetch_buffer\<close> is \<^verbatim>\<open>fetch(url)\<close> followed by \<^verbatim>\<open>response.buffer()\<close> (in \<^verbatim>\<open>part_001\<close>,
  \<^verbatim>\<open>downloadImage\<close>); \<open>sharp_rotate_jpeg\<close> is
  \<^verbatim>\<open>sharp(b).rotate().jpeg({quality: 90}).toBuffer()\<close>; \<open>sharp_toBuffer\<close> is
  \<^verbatim>\<open>sharp(b).toBuffer()\<close>; \<open>sharp_metadata\<close> gives \<^verbatim>\<open>width\<close> and \<^verbatim>\<open>height\<close> of
  \<^verbatim>\<open>sharp(b).metadata()\<close>. \<open>pdf_emit\<close> gives the chunks pdfkit hands to the
  \<^verbatim>\<open>'data'\<close> listener because of the last call of the given call history: pdfkit decides
  when the bytes of a page leave the document, so the model leaves that to the
  environment. The calls on the writer raise nothing of their own.

  When the listener sees a chunk differs between the two files. A pdfkit document is a
  readable stream: a chunk pushed before the stream's first read is kept in the stream's
  buffer, and that first read is scheduled on the tick queue when the listener is
  attached. In \<^verbatim>\<open>index.js\<close> the loop awaits sharp before its first call on the writer, so
  the stream is flowing by then, and every chunk reaches the listener inside the call
  that pushes it: an exception of the listener ends that call and reaches the
  \<^verbatim>\<open>catch\<close> block of the handler. In \<^verbatim>\<open>part_001\<close> nothing is awaited between attaching
  the listener and \<^verbatim>\<open>pdfDoc.end()\<close>, so every call returns with its chunks buffered, and
  the listener sees them from the tick queue while the handler waits for the \<^verbatim>\<open>'end'\<close>
  event: an exception of the listener is then outside every \<^verbatim>\<open>try\<close>.

  The bytes pdfkit pushes in the constructor (the header of the file) exist before the
  listener does. In \<^verbatim>\<open>index.js\<close> they reach the listener during the first await of the
  loop; the model counts them as the chunks of the constructor call, which comes to the
  same as long as the header alone is within the limit.
\<close>

section \<open>Session store of index.js\<close>

record session =
  images :: "bytes list"
  lastActive :: int

type_synonym userSessions = "user_id \<rightharpoonup> session"

definition SESSION_TIMEOUT :: int where
  "SESSION_TIMEOUT = 60 * 60 * 1000"

definition MAX_IMAGES_PER_USER :: nat where
  "MAX_IMAGES_PER_USER = 50"

definition MAX_PDF_SIZE :: nat where
  "MAX_PDF_SIZE = 50 * 1024 * 1024"

text \<open>
  \<^verbatim>\<open>cleanupSessions\<close>: the test of the loop body. For a number, \<^verbatim>\<open>!lastActive\<close> holds
  exactly at zero.
\<close>

definition inactive :: "int \<Rightarrow> session \<Rightarrow> bool" where
  "inactive now s \<longleftrightarrow> lastActive s = 0 \<or> now - lastActive s > SESSION_TIMEOUT"

text \<open>
  The \<^verbatim>\<open>for ... in\<close> loop visits every key once and deletes the key whose session is
  inactive, so the store after the loop is the store before it without those keys.
\<close>

definition cleanupSessions :: "int \<Rightarrow> userSessions \<Rightarrow> userSessions" where
  "cleanupSessions now us =
     (\<lambda>userId. case us userId of
        None \<Rightarrow> None
      | Some s \<Rightarrow> if inactive now s then None else Some s)"

text \<open>The middleware: create the session lazily, otherwise refresh \<^verbatim>\<open>lastActive\<close>.\<close>

definition middleware :: "int \<Rightarrow> user_id \<Rightarrow> userSessions \<Rightarrow> userSessions" where
  "middleware now userId us =
     (case us userId of
        None \<Rightarrow> us(userId \<mapsto> \<lparr>images = [], lastActive = now\<rparr>)
      | Some s \<Rightarrow> us(userId \<mapsto> s\<lparr>lastActive := now\<rparr>))"

section \<open>Ingestion in index.js\<close>

text \<open>
  The \<^verbatim>\<open>try\<close> block of \<^verbatim>\<open>processImage\<close> up to the value pushed on the session: the
  external calls made, and either the exception or the normalized image.
\<close>

definition fetch_and_normalize :: "env \<Rightarrow> file_id \<Rightarrow> effect list \<times> (failure + bytes)" where
  "fetch_and_normalize env fid =
     (case getFileLink env fid of
        None \<Rightarrow> ([CallGetFileLink fid], Inl LinkFailed)
      | Some fileUrl \<Rightarrow>
          (case fetch_buffer env fileUrl of
             None \<Rightarrow> ([CallGetFileLink fid, CallFetch fileUrl], Inl FetchFailed)
           | Some imageBuffer \<Rightarrow>
               (case sharp_rotate_jpeg env imageBuffer of
                  None \<Rightarrow>
                    ([CallGetFileLink fid, CallFetch fileUrl, CallSharp imageBuffer],
                     Inl DecodeFailed)
                | Some processedImage \<Rightarrow>
                    ([CallGetFileLink fid, CallFetch fileUrl, CallSharp imageBuffer],
                     Inr processedImage))))"

definition processImage :: "env \<Rightarrow> file_id \<Rightarrow> session \<Rightarrow> session \<times> effect list" where
  "processImage env fid s =
     (if length (images s) \<ge> MAX_IMAGES_PER_USER then (s, [SendReply MaxReached])
      else
        (case fetch_and_normalize env fid of
           (calls, Inl e) \<Rightarrow>
             (s, SendReply Processing # calls @ [LogError e, SendReply ProcessFailed])
         | (calls, Inr processedImage) \<Rightarrow>
             (let s' = s\<lparr>images := images s @ [processedImage]\<rparr>
              in (s', SendReply Processing # calls @ [SendReply (ImageAdded (length (images s')))]))))"


section \<open>The document handler of index.js\<close>

record document =
  file_id :: file_id
  mime_type :: "string option"
  file_name :: "string option"

text \<open>\<^verbatim>\<open>String.prototype.split('.')\<close>: the pieces between the dots, at least one piece.\<close>

fun split_dot :: "string \<Rightarrow> string list" where
  "split_dot [] = [[]]"
| "split_dot (c # cs) =
     (if c = CHR ''.'' then [] # split_dot cs
      else (case split_dot cs of [] \<Rightarrow> [[c]] | w # ws \<Rightarrow> (c # w) # ws))"

text \<open>\<^verbatim>\<open>Array.prototype.pop\<close> as an expression: the last element, \<^verbatim>\<open>undefined\<close> on \<open>[]\<close>.\<close>

fun pop :: "'a list \<Rightarrow> 'a option" where
  "pop [] = None"
| "pop [x] = Some x"
| "pop (x # y # ys) = pop (y # ys)"

text \<open>
  \<^verbatim>\<open>toLowerCase\<close> on the letters that matter here: \<open>A\<close> to \<open>Z\<close> (codes 65 to 90)
  become \<open>a\<close> to \<open>z\<close>, which adds 32, that is sets the bit of weight 32. No other
  character lower-cases to a letter of \<open>jpg\<close>, \<open>jpeg\<close> or \<open>png\<close>.
\<close>

definition toLowerCase_char :: "char \<Rightarrow> char" where
  "toLowerCase_char c =
     (if 65 \<le> (of_char c :: nat) \<and> (of_char c :: nat) \<le> 90
      then (case c of Char b0 b1 b2 b3 b4 b5 b6 b7 \<Rightarrow> Char b0 b1 b2 b3 b4 True b6 b7)
      else c)"

definition toLowerCase :: "string \<Rightarrow> string" where
  "toLowerCase = map toLowerCase_char"

text \<open>\<^verbatim>\<open>doc.file_name?.split('.').pop()?.toLowerCase()\<close>\<close>

definition fileExt :: "document \<Rightarrow> string option" where
  "fileExt doc =
     Option.bind (file_name doc) (\<lambda>name. map_option toLowerCase (pop (split_dot name)))"

definition validTypes :: "string list" where
  "validTypes = [''image/jpeg'', ''image/png'', ''image/jpg'']"

text \<open>
  \<^verbatim>\<open>validTypes.includes(doc.mime_type)\<close>, where the mime type may be absent, and
  \<^verbatim>\<open>fileExt && ['jpg', 'jpeg', 'png'].includes(fileExt)\<close>, where the empty string is falsy.
\<close>

definition mime_ok :: "string list \<Rightarrow> document \<Rightarrow> bool" where
  "mime_ok types doc = (case mime_type doc of None \<Rightarrow> False | Some m \<Rightarrow> m \<in> set types)"

definition ext_ok :: "document \<Rightarrow> bool" where
  "ext_ok doc =
     (case fileExt doc of
        None \<Rightarrow> False
      | Some e \<Rightarrow> e \<noteq> [] \<and> e \<in> set [''jpg'', ''jpeg'', ''png''])"

definition on_document :: "env \<Rightarrow> document \<Rightarrow> session \<Rightarrow> session \<times> effect list" where
  "on_document env doc s =
     (if mime_ok validTypes doc \<or> ext_ok doc then processImage env (file_id doc) s
      else (s, [SendReply OnlyJpegPng]))"

section \<open>Assembly in index.js\<close>

text \<open>
  The state of the \<^verbatim>\<open>try\<close> block of \<^verbatim>\<open>/convert\<close>: the calls made so far, the chunks the
  \<^verbatim>\<open>'data'\<close> listener has pushed on \<^verbatim>\<open>buffers\<close>, and its running total.
\<close>

record pdf_run =
  trace :: "effect list"
  buffers :: "bytes list"
  totalSize :: nat

fun ops_of :: "effect list \<Rightarrow> pdf_op list" where
  "ops_of [] = []"
| "ops_of (PdfOp x # es) = x # ops_of es"
| "ops_of (e # es) = ops_of es"

text \<open>
  The \<^verbatim>\<open>'data'\<close> listener on each chunk of one call, in order: push, add the length,
  throw when the total is above the limit. In \<^verbatim>\<open>index.js\<close> the throw ends the call that
  emitted the chunk, and with it the \<^verbatim>\<open>try\<close> block.
\<close>

fun deliver :: "nat \<Rightarrow> bytes list \<Rightarrow> pdf_run \<Rightarrow> failure option \<times> pdf_run" where
  "deliver limit [] r = (None, r)"
| "deliver limit (chunk # chunks) r =
     (let r' = r\<lparr>buffers := buffers r @ [chunk], totalSize := totalSize r + length chunk\<rparr>
      in if totalSize r' > limit then (Some SizeLimitExceeded, r') else deliver limit chunks r')"

definition pdf_call :: "env \<Rightarrow> nat \<Rightarrow> pdf_op \<Rightarrow> pdf_run \<Rightarrow> failure option \<times> pdf_run" where
  "pdf_call env limit x r =
     deliver limit (pdf_emit env (ops_of (trace r) @ [x])) (r\<lparr>trace := trace r @ [PdfOp x]\<rparr>)"

text \<open>
  The chunks the writer pushes for the calls \<open>xs\<close> made after the calls \<open>before\<close>, in
  the order they are pushed.
\<close>

fun written :: "env \<Rightarrow> pdf_op list \<Rightarrow> pdf_op list \<Rightarrow> bytes list" where
  "written env before [] = []"
| "written env before (x # xs) = pdf_emit env (before @ [x]) @ written env (before @ [x]) xs"

text \<open>
  The loop over \<^verbatim>\<open>ctx.session.images.entries()\<close>. The test
  \<^verbatim>\<open>index < ctx.session.images.length - 1\<close> holds exactly when images remain.
\<close>

fun add_images :: "env \<Rightarrow> bytes list \<Rightarrow> pdf_run \<Rightarrow> failure option \<times> pdf_run" where
  "add_images env [] r = (None, r)"
| "add_images env (imgBuffer # rest) r =
     (case sharp_toBuffer env imgBuffer of
        None \<Rightarrow> (Some DecodeFailed, r\<lparr>trace := trace r @ [CallSharp imgBuffer]\<rparr>)
      | Some image_buffer \<Rightarrow>
          (case pdf_call env MAX_PDF_SIZE (Image image_buffer (FitCentered 500 700))
                  (r\<lparr>trace := trace r @ [CallSharp imgBuffer]\<rparr>) of
             (Some e, r1) \<Rightarrow> (Some e, r1)
           | (None, r1) \<Rightarrow>
               (case (if rest \<noteq> [] then pdf_call env MAX_PDF_SIZE (AddPage None) r1
                      else (None, r1)) of
                  (Some e, r2) \<Rightarrow> (Some e, r2)
                | (None, r2) \<Rightarrow> add_images env rest r2)))"

text \<open>The \<^verbatim>\<open>try\<close> block up to \<^verbatim>\<open>Buffer.concat(buffers)\<close>.\<close>

definition build_pdf :: "env \<Rightarrow> bytes list \<Rightarrow> failure option \<times> pdf_run" where
  "build_pdf env imgs =
     (case pdf_call env MAX_PDF_SIZE (NewDocument True) \<lparr>trace = [], buffers = [], totalSize = 0\<rparr> of
        (Some e, r) \<Rightarrow> (Some e, r)
      | (None, r) \<Rightarrow>
          (case add_images env imgs r of
             (Some e, r1) \<Rightarrow> (Some e, r1)
           | (None, r1) \<Rightarrow> pdf_call env MAX_PDF_SIZE EndDocument r1))"

definition convert :: "env \<Rightarrow> session \<Rightarrow> session \<times> effect list" where
  "convert env s =
     (if images s = [] then (s, [SendReply NoImagesToConvert])
      else
        (case build_pdf env (images s) of
           (Some e, r) \<Rightarrow>
             (s, SendReply CreatingPdf # trace r @ [LogError e, SendReply (PdfFailed e)])
         | (None, r) \<Rightarrow>
             (let pdfBuffer = concat (buffers r)
              in if replyWithDocument env pdfBuffer
                 then (s\<lparr>images := []\<rparr>, SendReply CreatingPdf # trace r @ [SendDocument pdfBuffer])
                 else (s, SendReply CreatingPdf # trace r @
                            [LogError SendFailed, SendReply (PdfFailed SendFailed)]))))"

definition cancel :: "session \<Rightarrow> session \<times> effect list" where
  "cancel s = (s\<lparr>images := []\<rparr>, [SendReply Cleared])"

text \<open>A \<^verbatim>\<open>/convert\<close> update as the bot sees it: the middleware first, then the handler.\<close>

definition on_convert ::
  "env \<Rightarrow> int \<Rightarrow> user_id \<Rightarrow> userSessions \<Rightarrow> userSessions \<times> effect list" where
  "on_convert env now userId us =
     (let us1 = middleware now userId us
      in case us1 userId of
           None \<Rightarrow> (us1, [])
         | Some s \<Rightarrow> (case convert env s of (s', effs) \<Rightarrow> (us1(userId \<mapsto> s'), effs)))"

section \<open>The entry point part_001\<close>

record StoredImage =
  buffer :: bytes
  width :: nat
  height :: nat

record session_p1 =
  images_p1 :: "StoredImage list"
  timestamp :: "int option"

definition MAX_IMAGES :: nat where
  "MAX_IMAGES = 50"

definition PDF_LIMIT_p1 :: nat where
  "PDF_LIMIT_p1 = 45 * 1024 * 1024"

definition validTypes_p1 :: "string list" where
  "validTypes_p1 = [''image/jpeg'', ''image/png'']"

text \<open>
  The \<^verbatim>\<open>try\<close> block of \<^verbatim>\<open>processImage\<close> in \<^verbatim>\<open>part_001\<close>. \<^verbatim>\<open>downloadImage\<close> logs a failed
  download itself before it throws.
\<close>

definition fetch_and_normalize_p1 ::
  "env \<Rightarrow> file_id \<Rightarrow> effect list \<times> (failure + StoredImage)" where
  "fetch_and_normalize_p1 env fid =
     (case getFileLink env fid of
        None \<Rightarrow> ([CallGetFileLink fid], Inl LinkFailed)
      | Some fileUrl \<Rightarrow>
          (case fetch_buffer env fileUrl of
             None \<Rightarrow>
               ([CallGetFileLink fid, CallFetch fileUrl, LogError FetchFailed], Inl FetchFailed)
           | Some imageBuffer \<Rightarrow>
               (case sharp_rotate_jpeg env imageBuffer of
                  None \<Rightarrow>
                    ([CallGetFileLink fid, CallFetch fileUrl, CallSharp imageBuffer],
                     Inl DecodeFailed)
                | Some processedImage \<Rightarrow>
                    (case sharp_metadata env processedImage of
                       None \<Rightarrow>
                         ([CallGetFileLink fid, CallFetch fileUrl, CallSharp imageBuffer,
                           CallMetadata processedImage], Inl MetadataFailed)
                     | Some (w, h) \<Rightarrow>
                         ([CallGetFileLink fid, CallFetch fileUrl, CallSharp imageBuffer,
                           CallMetadata processedImage],
                          Inr \<lparr>buffer = processedImage, width = w, height = h\<rparr>)))))"

definition processImage_p1 ::
  "env \<Rightarrow> file_id \<Rightarrow> session_p1 \<Rightarrow> session_p1 \<times> effect list" where
  "processImage_p1 env fid s =
     (if length (images_p1 s) \<ge> MAX_IMAGES then (s, [SendReply MaxReached])
      else
        (case fetch_and_normalize_p1 env fid of
           (calls, Inl e) \<Rightarrow> (s, calls @ [LogError e, SendReply ProcessFailed])
         | (calls, Inr img) \<Rightarrow>
             (let s' = s\<lparr>images_p1 := images_p1 s @ [img]\<rparr>
              in (s', calls @ [SendReply (ImageAdded (length (images_p1 s')))]))))"

definition on_document_p1 ::
  "env \<Rightarrow> document \<Rightarrow> session_p1 \<Rightarrow> session_p1 \<times> effect list" where
  "on_document_p1 env doc s =
     (if mime_ok validTypes_p1 doc \<or> ext_ok doc then processImage_p1 env (file_id doc) s
      else (s, [SendReply OnlyJpegPng]))"

text \<open>
  The page size of an image: \<^verbatim>\<open>img.width * 72 / 96\<close>. Both operations are exact in
  double precision for pixel counts below \<open>2\<^sup>5\<^sup>3 / 72\<close>, so the model computes in \<open>rat\<close>.
\<close>

definition page_size_p1 :: "StoredImage \<Rightarrow> rat \<times> rat" where
  "page_size_p1 img = (of_nat (width img) * 72 / 96, of_nat (height img) * 72 / 96)"

text \<open>
  A call on the writer in \<^verbatim>\<open>part_001\<close>: it returns with its chunks in the stream's buffer,
  the listener has seen nothing yet.
\<close>

definition pdf_buffered :: "pdf_op \<Rightarrow> pdf_run \<Rightarrow> pdf_run" where
  "pdf_buffered x r = r\<lparr>trace := trace r @ [PdfOp x]\<rparr>"

text \<open>The loop over \<^verbatim>\<open>ctx.session.images\<close>: it always runs to the end.\<close>

fun add_pages_p1 :: "StoredImage list \<Rightarrow> pdf_run \<Rightarrow> pdf_run" where
  "add_pages_p1 [] r = r"
| "add_pages_p1 (img # rest) r =
     (case page_size_p1 img of
        (pageWidth, pageHeight) \<Rightarrow>
          add_pages_p1 rest
            (pdf_buffered (Image (buffer img) (AtOrigin pageWidth pageHeight))
               (pdf_buffered (AddPage (Some (pageWidth, pageHeight))) r)))"

text \<open>
  The \<^verbatim>\<open>try\<close> block from \<^verbatim>\<open>new PDFDocument\<close> to the promise that waits for \<^verbatim>\<open>'end'\<close>: all
  calls are made, \<^verbatim>\<open>pdfDoc.end()\<close> included, and only then the buffered chunks of all of
  them go to the listener, in the order they were pushed. The listener's throw stops
  the flow.
\<close>

definition build_pdf_p1 :: "env \<Rightarrow> StoredImage list \<Rightarrow> failure option \<times> pdf_run" where
  "build_pdf_p1 env imgs =
     (let r = pdf_buffered EndDocument
                (add_pages_p1 imgs
                   (pdf_buffered (NewDocument False) \<lparr>trace = [], buffers = [], totalSize = 0\<rparr>))
      in deliver PDF_LIMIT_p1 (written env [] (ops_of (trace r))) r)"

text \<open>
  \<^verbatim>\<open>/convert\<close> of \<^verbatim>\<open>part_001\<close>. When the listener throws, the exception comes from the tick
  queue: no \<^verbatim>\<open>catch\<close> block runs, the promise the handler awaits is never settled, and
  the handler neither replies nor touches the session again. The session returned in
  that case is the session object as the handler left it; what becomes of the process
  after an uncaught exception is not modelled.
\<close>

definition convert_p1 :: "env \<Rightarrow> session_p1 \<Rightarrow> session_p1 \<times> effect list" where
  "convert_p1 env s =
     (if images_p1 s = [] then (s, [SendReply NoImagesToConvert])
      else
        (case build_pdf_p1 env (images_p1 s) of
           (Some e, r) \<Rightarrow> (s, SendReply CreatingPdf # trace r @ [Uncaught e])
         | (None, r) \<Rightarrow>
             (let pdfBuffer = concat (buffers r)
              in if replyWithDocument env pdfBuffer
                 then (s\<lparr>images_p1 := []\<rparr>,
                       SendReply CreatingPdf # trace r @ [SendDocument pdfBuffer])
                 else (s, SendReply CreatingPdf # trace r @
                            [LogError SendFailed, SendReply (PdfFailed SendFailed)]))))"

section \<open>The pages of a document\<close>

text \<open>
  What pdfkit's calls mean for the page structure, as its documentation gives it: a new
  document starts with one page unless \<^verbatim>\<open>autoFirstPage\<close> is false, \<^verbatim>\<open>addPage\<close> appends a
  page and makes it current, \<^verbatim>\<open>image\<close> draws on the current page. The handlers never draw
  before a page exists.
\<close>

record page =
  page_size :: "(rat \<times> rat) option"
  page_images :: "(bytes \<times> placement) list"

fun pdf_step :: "page list \<Rightarrow> pdf_op \<Rightarrow> page list" where
  "pdf_step ps (NewDocument autoFirstPage) =
     (if autoFirstPage then [\<lparr>page_size = None, page_images = []\<rparr>] else [])"
| "pdf_step ps (AddPage sz) = ps @ [\<lparr>page_size = sz, page_images = []\<rparr>]"
| "pdf_step ps (Image b pl) =
     (case rev ps of
        [] \<Rightarrow> []
      | p # earlier \<Rightarrow> rev earlier @ [p\<lparr>page_images := page_images p @ [(b, pl)]\<rparr>])"
| "pdf_step ps EndDocument = ps"

definition pdf_pages :: "pdf_op list \<Rightarrow> page list" where
  "pdf_pages xs = foldl pdf_step [] xs"


section \<open>Notions the properties are stated with\<close>

text \<open>
  The extension of a file name, as the word is used of the document handler: what
  follows the last dot, and the whole name when it has no dot.
\<close>

definition extension :: "string \<Rightarrow> string" where
  "extension name = rev (takeWhile (\<lambda>c. c \<noteq> CHR ''.'') (rev name))"

text \<open>
  An environment in which every service answers: a file link per file id, a one-byte
  download that tells the links apart by their length, sharp returning its input, images
  of 640 by 480 pixels, a writer that emits one byte per call, and a delivery that works.
\<close>

definition env_ok :: env where
  "env_ok =
     \<lparr>getFileLink = (\<lambda>fid. Some (''https://files/'' @ fid)),
      fetch_buffer = (\<lambda>u. Some [of_nat (length u)]),
      sharp_rotate_jpeg = Some,
      sharp_toBuffer = Some,
      sharp_metadata = (\<lambda>b. Some (640, 480)),
      pdf_emit = (\<lambda>xs. [[of_nat (length xs)]]),
      replyWithDocument = (\<lambda>d. True)\<rparr>"

text \<open>
  The effects a \<^verbatim>\<open>try\<close> block of \<^verbatim>\<open>/convert\<close> may leave in its trace: calls on the
  document writer, and in \<^verbatim>\<open>index.js\<close> the sharp call on each stored image.
\<close>

fun build_effect :: "effect \<Rightarrow> bool" where
  "build_effect (PdfOp x) = True"
| "build_effect (CallSharp b) = True"
| "build_effect e = False"

fun writer_call :: "effect \<Rightarrow> bool" where
  "writer_call (PdfOp x) = True"
| "writer_call e = False"

text \<open>
  The invariant of a document build under a size limit. The running total is the number
  of bytes pushed on \<^verbatim>\<open>buffers\<close>, and the trace holds effects of the kind \<open>K\<close> only.
  While the build goes on the total is within the limit. A build that stopped on the
  size error is above the limit, was within it before the last chunk, and its last
  effect is a call on the writer (in \<^verbatim>\<open>index.js\<close> the call that emitted this chunk). The
  only other way for a build to stop
  is sharp failing on a stored image, with the total still within the limit.
\<close>

definition good :: "(effect \<Rightarrow> bool) \<Rightarrow> nat \<Rightarrow> failure option \<times> pdf_run \<Rightarrow> bool" where
  "good K limit out =
     (case out of
        (fo, r) \<Rightarrow>
          totalSize r = length (concat (buffers r))
        \<and> list_all K (trace r)
        \<and> (case fo of
              None \<Rightarrow> totalSize r \<le> limit
            | Some e \<Rightarrow>
                if e = SizeLimitExceeded
                then limit < totalSize r \<and> buffers r \<noteq> []
                   \<and> totalSize r - length (last (buffers r)) \<le> limit
                   \<and> (\<exists>t x. trace r = t @ [PdfOp x])
                else e = DecodeFailed \<and> totalSize r \<le> limit
                   \<and> (\<exists>t b. trace r = t @ [CallSharp b])))"

text \<open>
  An environment as \<open>env_ok\<close>, except that the second call on the writer emits one chunk
  as large as the limit of \<^verbatim>\<open>index.js\<close>: with the byte of the first call the total is
  above both limits.
\<close>

definition env_flood :: env where
  "env_flood =
     env_ok\<lparr>pdf_emit := (\<lambda>xs. if length xs = 2 then [replicate MAX_PDF_SIZE 0] else [[1]])\<rparr>"

text \<open>Several images sent one after the other, each handled to the end before the next.\<close>

fun ingest_all :: "env \<Rightarrow> file_id list \<Rightarrow> session \<Rightarrow> session" where
  "ingest_all env [] s = s"
| "ingest_all env (fid # fids) s = ingest_all env fids (fst (processImage env fid s))"

fun ingest_all_p1 :: "env \<Rightarrow> file_id list \<Rightarrow> session_p1 \<Rightarrow> session_p1" where
  "ingest_all_p1 env [] s = s"
| "ingest_all_p1 env (fid # fids) s = ingest_all_p1 env fids (fst (processImage_p1 env fid s))"

text \<open>
  The page an image gets: in \<^verbatim>\<open>index.js\<close> a page of the default size with the image
  fitted into 500 by 700 points, in \<^verbatim>\<open>part_001\<close> a page of the size computed from the
  stored width and height, filled by the image.
\<close>

definition page_of :: "bytes \<Rightarrow> page" where
  "page_of d = \<lparr>page_size = None, page_images = [(d, FitCentered 500 700)]\<rparr>"

definition page_of_p1 :: "StoredImage \<Rightarrow> page" where
  "page_of_p1 img =
     \<lparr>page_size = Some (page_size_p1 img),
      page_images = [(buffer img, AtOrigin (fst (page_size_p1 img)) (snd (page_size_p1 img)))]\<rparr>"

text \<open>
  The writer calls of a build that is not cut short, between the creation of the
  document and its end: for \<^verbatim>\<open>index.js\<close> over the images as sharp returned them, for
  \<^verbatim>\<open>part_001\<close> over the stored images.
\<close>

fun plan :: "bytes list \<Rightarrow> pdf_op list" where
  "plan [] = []"
| "plan (d # rest) =
     Image d (FitCentered 500 700) # (if rest \<noteq> [] then [AddPage None] else []) @ plan rest"

fun plan_p1 :: "StoredImage list \<Rightarrow> pdf_op list" where
  "plan_p1 [] = []"
| "plan_p1 (img # rest) =
     AddPage (Some (page_size_p1 img))
     # Image (buffer img) (AtOrigin (fst (page_size_p1 img)) (snd (page_size_p1 img)))
     # plan_p1 rest"

text \<open>
  A stored image of 16 MiB, and an environment as \<open>env_ok\<close> whose writer pushes the
  bytes of an image in the call that draws it and one byte in every other call.
\<close>

definition jpeg16 :: bytes where
  "jpeg16 = replicate (16 * 1024 * 1024) 0"

definition env_jpeg :: env where
  "env_jpeg =
     env_ok\<lparr>pdf_emit :=
       (\<lambda>xs. case rev xs of
                [] \<Rightarrow> [[1]]
              | x # earlier \<Rightarrow> (case x of Image b pl \<Rightarrow> [b] | _ \<Rightarrow> [[1]]))\<rparr>"

text \<open>
  Environments as \<open>env_ok\<close> in which the delivery of the document fails, and in which
  sharp cannot read a stored image.
\<close>

definition env_undelivered :: env where
  "env_undelivered = env_ok\<lparr>replyWithDocument := (\<lambda>d. False)\<rparr>"

definition env_unreadable :: env where
  "env_unreadable = env_ok\<lparr>sharp_toBuffer := (\<lambda>b. None)\<rparr>"

section \<open>Capacity\<close>

text \<open>
  C3. A session that holds exactly the maximum number of images refuses the next image:
  the only effect of \<^verbatim>\<open>processImage\<close> is the reply that the maximum is reached (no file
  link is asked for, nothing is downloaded, sharp is not called), and the session is
  returned as it was. This holds in \<^verbatim>\<open>index.js\<close> and in \<^verbatim>\<open>part_001\<close>.
\<close>

theorem capacity_short_circuit:
  "(length (images s) = MAX_IMAGES_PER_USER \<longrightarrow>
      processImage env fid s = (s, [SendReply MaxReached]))
   \<and> (length (images_p1 s1) = MAX_IMAGES \<longrightarrow>
      processImage_p1 env fid s1 = (s1, [SendReply MaxReached]))"
  by (simp add: processImage_def processImage_p1_def)

theorem capacity_short_circuit_witness:
  "length (images \<lparr>images = replicate 50 [7], lastActive = 1\<rparr>) = MAX_IMAGES_PER_USER
   \<and> processImage env_ok ''a'' \<lparr>images = replicate 50 [7], lastActive = 1\<rparr>
       = (\<lparr>images = replicate 50 [7], lastActive = 1\<rparr>, [SendReply MaxReached])
   \<and> length (images_p1 \<lparr>images_p1 = replicate 50 \<lparr>buffer = [7], width = 2, height = 3\<rparr>,
         timestamp = Some 1\<rparr>) = MAX_IMAGES
   \<and> processImage_p1 env_ok ''a''
         \<lparr>images_p1 = replicate 50 \<lparr>buffer = [7], width = 2, height = 3\<rparr>, timestamp = Some 1\<rparr>
       = (\<lparr>images_p1 = replicate 50 \<lparr>buffer = [7], width = 2, height = 3\<rparr>,
           timestamp = Some 1\<rparr>, [SendReply MaxReached])"
  using capacity_short_circuit [of "\<lparr>images = replicate 50 [7], lastActive = 1\<rparr>"
      env_ok "''a''"
      "\<lparr>images_p1 = replicate 50 \<lparr>buffer = [7], width = 2, height = 3\<rparr>, timestamp = Some 1\<rparr>"]
  by (simp add: MAX_IMAGES_PER_USER_def MAX_IMAGES_def)

section \<open>Converting an empty session\<close>

text \<open>
  C6. On a session without images \<^verbatim>\<open>/convert\<close> only replies that there is nothing to
  convert: no document is built or sent and the handler returns the session unchanged,
  in \<^verbatim>\<open>index.js\<close> and in \<^verbatim>\<open>part_001\<close>. Seen from the store of \<^verbatim>\<open>index.js\<close>, the
  only change is the activity stamp the middleware writes for every update.
\<close>

theorem convert_empty_session:
  "(images s = [] \<longrightarrow> convert env s = (s, [SendReply NoImagesToConvert]))
   \<and> (images_p1 s1 = [] \<longrightarrow> convert_p1 env s1 = (s1, [SendReply NoImagesToConvert]))
   \<and> (us userId = Some s \<and> images s = [] \<longrightarrow>
        on_convert env now userId us
          = (us(userId \<mapsto> s\<lparr>lastActive := now\<rparr>), [SendReply NoImagesToConvert]))"
  by (simp add: convert_def convert_p1_def on_convert_def middleware_def)

theorem convert_empty_session_witness:
  "images \<lparr>images = [], lastActive = 1\<rparr> = []
   \<and> convert env_ok \<lparr>images = [], lastActive = 1\<rparr>
        = (\<lparr>images = [], lastActive = 1\<rparr>, [SendReply NoImagesToConvert])
   \<and> images_p1 \<lparr>images_p1 = [], timestamp = Some 1\<rparr> = []
   \<and> convert_p1 env_ok \<lparr>images_p1 = [], timestamp = Some 1\<rparr>
        = (\<lparr>images_p1 = [], timestamp = Some 1\<rparr>, [SendReply NoImagesToConvert])
   \<and> [4 \<mapsto> \<lparr>images = [], lastActive = 1\<rparr>] (4::int) = Some \<lparr>images = [], lastActive = 1\<rparr>
   \<and> on_convert env_ok 9 4 [4 \<mapsto> \<lparr>images = [], lastActive = 1\<rparr>]
        = ([4 \<mapsto> \<lparr>images = [], lastActive = 9\<rparr>], [SendReply NoImagesToConvert])"
  using convert_empty_session [of "\<lparr>images = [], lastActive = 1\<rparr>" env_ok
      "\<lparr>images_p1 = [], timestamp = Some 1\<rparr>" "[4 \<mapsto> \<lparr>images = [], lastActive = 1\<rparr>]" 4 9]
  by simp

section \<open>The expiry sweep\<close>

lemma cleanup_lookup:
  "cleanupSessions now us userId =
     (case us userId of
        None \<Rightarrow> None
      | Some s \<Rightarrow>
          if lastActive s = 0 \<or> SESSION_TIMEOUT < now - lastActive s then None else Some s)"
  by (simp add: cleanupSessions_def inactive_def split: option.splits)

text \<open>
  Every session the middleware has touched carries the clock reading of that update.
\<close>

lemma middleware_stamps:
  "\<exists>s. middleware now userId us userId = Some s \<and> lastActive s = now"
  by (cases "us userId") (simp_all add: middleware_def)

text \<open>
  C8. The sweep of \<^verbatim>\<open>index.js\<close> at time \<open>now\<close> removes a session exactly when its last
  activity lies more than \<^verbatim>\<open>SESSION_TIMEOUT\<close> (one hour) before \<open>now\<close>; a session touched
  within the hour is still in the store after the sweep, unchanged. The sweep's extra
  test \<^verbatim>\<open>!lastActive\<close> holds only for a stamp of zero, the epoch itself; it makes a
  difference only to a sweep that runs within the first hour after the epoch, so the
  statement is for a stamp other than zero or a sweep later than that.
\<close>

theorem sweep_removes_iff_expired:
  assumes "us userId = Some s" and "lastActive s \<noteq> 0 \<or> SESSION_TIMEOUT < now"
  shows "(cleanupSessions now us userId = None \<longleftrightarrow> SESSION_TIMEOUT < now - lastActive s)
    \<and> (now - lastActive s \<le> SESSION_TIMEOUT \<longleftrightarrow> cleanupSessions now us userId = Some s)"
  using assms by (auto simp: cleanup_lookup)

theorem sweep_removes_iff_expired_witness:
  "[4 \<mapsto> \<lparr>images = [[7]], lastActive = 1000\<rparr>, 5 \<mapsto> \<lparr>images = [], lastActive = 500000\<rparr>] (4::int)
      = Some \<lparr>images = [[7]], lastActive = 1000\<rparr>
   \<and> lastActive \<lparr>images = [[7]], lastActive = 1000\<rparr> \<noteq> 0
   \<and> SESSION_TIMEOUT < 3601001 - lastActive \<lparr>images = [[7]], lastActive = 1000\<rparr>
   \<and> cleanupSessions 3601001
        [4 \<mapsto> \<lparr>images = [[7]], lastActive = 1000\<rparr>, 5 \<mapsto> \<lparr>images = [], lastActive = 500000\<rparr>] (4::int)
      = None
   \<and> 3601001 - lastActive \<lparr>images = [], lastActive = 500000\<rparr> \<le> SESSION_TIMEOUT
   \<and> cleanupSessions 3601001
        [4 \<mapsto> \<lparr>images = [[7]], lastActive = 1000\<rparr>, 5 \<mapsto> \<lparr>images = [], lastActive = 500000\<rparr>] (5::int)
      = Some \<lparr>images = [], lastActive = 500000\<rparr>"
  using
    sweep_removes_iff_expired [of
      "[4 \<mapsto> \<lparr>images = [[7]], lastActive = 1000\<rparr>, 5 \<mapsto> \<lparr>images = [], lastActive = 500000\<rparr>]"
      4 "\<lparr>images = [[7]], lastActive = 1000\<rparr>" 3601001]
    sweep_removes_iff_expired [of
      "[4 \<mapsto> \<lparr>images = [[7]], lastActive = 1000\<rparr>, 5 \<mapsto> \<lparr>images = [], lastActive = 500000\<rparr>]"
      5 "\<lparr>images = [], lastActive = 500000\<rparr>" 3601001]
  by (simp add: SESSION_TIMEOUT_def)

section \<open>Which documents are ingested\<close>

text \<open>
  The handler's \<^verbatim>\<open>split('.').pop()\<close> is the extension of the file name.
\<close>

lemma split_dot_not_Nil: "split_dot name \<noteq> []"
  by (induction name) (auto split: list.splits)

lemma pop_last: "pop xs = (if xs = [] then None else Some (last xs))"
  by (induction xs rule: pop.induct) auto

lemma split_dot_no_dot: "CHR ''.'' \<notin> set cs \<Longrightarrow> split_dot cs = [cs]"
  by (induction cs) auto

lemma length_split_dot:
  "length (split_dot cs) = Suc (length (filter (\<lambda>c. c = CHR ''.'') cs))"
  by (induction cs) (auto split: list.splits)

lemma split_dot_with_dot:
  assumes "CHR ''.'' \<in> set cs"
  shows "\<exists>w v vs. split_dot cs = w # v # vs"
proof -
  have "filter (\<lambda>c. c = CHR ''.'') cs \<noteq> []"
    using assms by (simp add: filter_empty_conv)
  then have "2 \<le> length (split_dot cs)"
    by (cases "filter (\<lambda>c. c = CHR ''.'') cs") (simp_all add: length_split_dot)
  then show ?thesis
    by (cases "split_dot cs"; cases "tl (split_dot cs)") auto
qed

lemma extension_Cons:
  "extension (c # cs) =
     (if CHR ''.'' \<in> set cs then extension cs else if c = CHR ''.'' then cs else c # cs)"
proof (cases "CHR ''.'' \<in> set cs")
  case True
  then have "CHR ''.'' \<in> set (rev cs)" by simp
  then have "takeWhile (\<lambda>c. c \<noteq> CHR ''.'') (rev cs @ [c]) = takeWhile (\<lambda>c. c \<noteq> CHR ''.'') (rev cs)"
    by (rule takeWhile_append1) simp
  with True show ?thesis by (simp add: extension_def)
next
  case False
  then have "\<And>x. x \<in> set (rev cs) \<Longrightarrow> x \<noteq> CHR ''.''" by auto
  then have "takeWhile (\<lambda>c. c \<noteq> CHR ''.'') (rev cs @ [c]) = rev cs @ takeWhile (\<lambda>c. c \<noteq> CHR ''.'') [c]"
    by (rule takeWhile_append2)
  with False show ?thesis by (simp add: extension_def)
qed

lemma last_split_dot: "last (split_dot name) = extension name"
proof (induction name)
  case Nil
  show ?case by (simp add: extension_def)
next
  case (Cons c cs)
  show ?case
  proof (cases "CHR ''.'' \<in> set cs")
    case True
    then obtain w v vs where sp: "split_dot cs = w # v # vs"
      using split_dot_with_dot by blast
    with True Cons.IH show ?thesis
      by (simp add: extension_Cons)
  next
    case False
    then show ?thesis
      by (simp add: extension_Cons split_dot_no_dot)
  qed
qed

lemma pop_split_dot: "pop (split_dot name) = Some (extension name)"
  by (simp add: pop_last split_dot_not_Nil last_split_dot)

lemma ext_nonempty: "e \<in> {''jpg'', ''jpeg'', ''png''} \<Longrightarrow> e \<noteq> []"
  by auto

lemma ext_ok_iff:
  "ext_ok doc \<longleftrightarrow>
     (\<exists>name. file_name doc = Some name \<and>
        toLowerCase (extension name) \<in> {''jpg'', ''jpeg'', ''png''})"
proof (cases "file_name doc")
  case None
  then show ?thesis by (simp add: ext_ok_def fileExt_def)
next
  case (Some name)
  let ?e = "toLowerCase (extension name)"
  have "fileExt doc = Some ?e"
    using Some by (simp add: fileExt_def pop_split_dot)
  then have "ext_ok doc \<longleftrightarrow> ?e \<noteq> [] \<and> ?e \<in> {''jpg'', ''jpeg'', ''png''}"
    by (simp add: ext_ok_def)
  also have "\<dots> \<longleftrightarrow> ?e \<in> {''jpg'', ''jpeg'', ''png''}"
    using ext_nonempty [of ?e] by (rule_tac iffI) simp_all
  also have "\<dots> \<longleftrightarrow> (\<exists>n. file_name doc = Some n \<and>
        toLowerCase (extension n) \<in> {''jpg'', ''jpeg'', ''png''})"
    using Some by simp
  finally show ?thesis .
qed

lemma mime_ok_iff: "mime_ok types doc \<longleftrightarrow> mime_type doc \<in> Some ` set types"
  by (cases "mime_type doc") (auto simp: mime_ok_def)

text \<open>
  C10, as the two entry points have it. In \<^verbatim>\<open>index.js\<close> a document goes to
  \<^verbatim>\<open>processImage\<close> when its mime type is \<^verbatim>\<open>image/jpeg\<close>, \<^verbatim>\<open>image/png\<close> or
  \<^verbatim>\<open>image/jpg\<close>, or when its file name's extension, lower-cased, is \<open>jpg\<close>, \<open>jpeg\<close> or
  \<open>png\<close>, whatever the mime type; otherwise the only effect is the reply asking for JPEG
  or PNG. In \<^verbatim>\<open>part_001\<close> the same holds with the mime types \<^verbatim>\<open>image/jpeg\<close> and
  \<^verbatim>\<open>image/png\<close> only: a document declared \<^verbatim>\<open>image/jpg\<close> is ingested there only through
  its extension.
\<close>

theorem document_gate:
  "on_document env doc s =
     (if mime_type doc \<in> {Some ''image/jpeg'', Some ''image/png'', Some ''image/jpg''}
         \<or> (\<exists>name. file_name doc = Some name \<and>
               toLowerCase (extension name) \<in> {''jpg'', ''jpeg'', ''png''})
      then processImage env (file_id doc) s
      else (s, [SendReply OnlyJpegPng]))
   \<and> on_document_p1 env doc s1 =
     (if mime_type doc \<in> {Some ''image/jpeg'', Some ''image/png''}
         \<or> (\<exists>name. file_name doc = Some name \<and>
               toLowerCase (extension name) \<in> {''jpg'', ''jpeg'', ''png''})
      then processImage_p1 env (file_id doc) s1
      else (s1, [SendReply OnlyJpegPng]))"
  unfolding on_document_def on_document_p1_def mime_ok_iff ext_ok_iff
  by (simp add: validTypes_def validTypes_p1_def)


theorem document_gate_witness:
  "on_document env_ok
      \<lparr>file_id = ''a'', mime_type = Some ''application/octet-stream'',
       file_name = Some ''holiday.2024.PNG''\<rparr> \<lparr>images = [], lastActive = 1\<rparr>
     = processImage env_ok ''a'' \<lparr>images = [], lastActive = 1\<rparr>
   \<and> on_document_p1 env_ok
      \<lparr>file_id = ''a'', mime_type = Some ''application/octet-stream'',
       file_name = Some ''holiday.2024.PNG''\<rparr> \<lparr>images_p1 = [], timestamp = None\<rparr>
     = processImage_p1 env_ok ''a'' \<lparr>images_p1 = [], timestamp = None\<rparr>"
  using document_gate [of env_ok
      "\<lparr>file_id = ''a'', mime_type = Some ''application/octet-stream'',
        file_name = Some ''holiday.2024.PNG''\<rparr>"
      "\<lparr>images = [], lastActive = 1\<rparr>" "\<lparr>images_p1 = [], timestamp = None\<rparr>"]
  by (simp add: extension_def toLowerCase_def toLowerCase_char_def)

text \<open>
  In \<^verbatim>\<open>part_001\<close> a document declared \<^verbatim>\<open>image/jpg\<close> whose name ends in \<open>.bin\<close> is
  rejected, and \<^verbatim>\<open>processImage\<close> is not attempted.
\<close>

theorem document_gate_counterexample:
  "mime_type \<lparr>file_id = ''a'', mime_type = Some ''image/jpg'', file_name = Some ''scan.bin''\<rparr>
      = Some ''image/jpg''
   \<and> on_document_p1 env_ok
        \<lparr>file_id = ''a'', mime_type = Some ''image/jpg'', file_name = Some ''scan.bin''\<rparr>
        \<lparr>images_p1 = [], timestamp = None\<rparr>
      = (\<lparr>images_p1 = [], timestamp = None\<rparr>, [SendReply OnlyJpegPng])
   \<and> on_document_p1 env_ok
        \<lparr>file_id = ''a'', mime_type = Some ''image/jpg'', file_name = Some ''scan.bin''\<rparr>
        \<lparr>images_p1 = [], timestamp = None\<rparr>
      \<noteq> processImage_p1 env_ok ''a'' \<lparr>images_p1 = [], timestamp = None\<rparr>"
  by (simp add: on_document_p1_def mime_ok_def validTypes_p1_def ext_ok_def fileExt_def
      toLowerCase_def toLowerCase_char_def processImage_p1_def fetch_and_normalize_p1_def
      env_ok_def MAX_IMAGES_def)

section \<open>What a failed ingest leaves behind\<close>

lemma fetch_and_normalize_cases:
  "snd (fetch_and_normalize env fid) =
     (case getFileLink env fid of
        None \<Rightarrow> Inl LinkFailed
      | Some fileUrl \<Rightarrow>
          (case fetch_buffer env fileUrl of
             None \<Rightarrow> Inl FetchFailed
           | Some imageBuffer \<Rightarrow>
               (case sharp_rotate_jpeg env imageBuffer of
                  None \<Rightarrow> Inl DecodeFailed
                | Some processedImage \<Rightarrow> Inr processedImage)))"
  by (simp add: fetch_and_normalize_def split: option.splits)

lemma fetch_and_normalize_p1_cases:
  "snd (fetch_and_normalize_p1 env fid) =
     (case getFileLink env fid of
        None \<Rightarrow> Inl LinkFailed
      | Some fileUrl \<Rightarrow>
          (case fetch_buffer env fileUrl of
             None \<Rightarrow> Inl FetchFailed
           | Some imageBuffer \<Rightarrow>
               (case sharp_rotate_jpeg env imageBuffer of
                  None \<Rightarrow> Inl DecodeFailed
                | Some processedImage \<Rightarrow>
                    (case sharp_metadata env processedImage of
                       None \<Rightarrow> Inl MetadataFailed
                     | Some (w, h) \<Rightarrow>
                         Inr \<lparr>buffer = processedImage, width = w, height = h\<rparr>))))"
  by (simp add: fetch_and_normalize_p1_def split: option.splits)

lemma processImage_session:
  "fst (processImage env fid s) =
     (if length (images s) \<ge> MAX_IMAGES_PER_USER then s
      else (case snd (fetch_and_normalize env fid) of
              Inl e \<Rightarrow> s
            | Inr processedImage \<Rightarrow> s\<lparr>images := images s @ [processedImage]\<rparr>))"
  by (cases "fetch_and_normalize env fid")
    (simp add: processImage_def Let_def split: sum.splits)

lemma processImage_p1_session:
  "fst (processImage_p1 env fid s) =
     (if length (images_p1 s) \<ge> MAX_IMAGES then s
      else (case snd (fetch_and_normalize_p1 env fid) of
              Inl e \<Rightarrow> s
            | Inr img \<Rightarrow> s\<lparr>images_p1 := images_p1 s @ [img]\<rparr>))"
  by (cases "fetch_and_normalize_p1 env fid")
    (simp add: processImage_p1_def Let_def split: sum.splits)

text \<open>
  C7. \<^verbatim>\<open>processImage\<close> changes the image list only by appending the normalized image, and
  only when the file link, the download and sharp (in \<^verbatim>\<open>part_001\<close> also the metadata
  read) all succeeded. When the link or the download fails, or when sharp cannot decode
  the bytes, the session after the attempt is the session before it.
\<close>

theorem ingest_frame:
  "(images (fst (processImage env fid s)) \<noteq> images s \<longrightarrow>
      (\<exists>fileUrl imageBuffer processedImage.
          getFileLink env fid = Some fileUrl
        \<and> fetch_buffer env fileUrl = Some imageBuffer
        \<and> sharp_rotate_jpeg env imageBuffer = Some processedImage
        \<and> fst (processImage env fid s) = s\<lparr>images := images s @ [processedImage]\<rparr>))
   \<and> (getFileLink env fid = None
        \<or> (\<exists>fileUrl. getFileLink env fid = Some fileUrl \<and> fetch_buffer env fileUrl = None)
        \<longrightarrow> fst (processImage env fid s) = s)
   \<and> ((\<exists>fileUrl imageBuffer. getFileLink env fid = Some fileUrl
          \<and> fetch_buffer env fileUrl = Some imageBuffer
          \<and> sharp_rotate_jpeg env imageBuffer = None)
        \<longrightarrow> fst (processImage env fid s) = s)
   \<and> (images_p1 (fst (processImage_p1 env fid s1)) \<noteq> images_p1 s1 \<longrightarrow>
      (\<exists>fileUrl imageBuffer processedImage w h.
          getFileLink env fid = Some fileUrl
        \<and> fetch_buffer env fileUrl = Some imageBuffer
        \<and> sharp_rotate_jpeg env imageBuffer = Some processedImage
        \<and> sharp_metadata env processedImage = Some (w, h)
        \<and> fst (processImage_p1 env fid s1) =
            s1\<lparr>images_p1 := images_p1 s1 @ [\<lparr>buffer = processedImage, width = w, height = h\<rparr>]\<rparr>))
   \<and> (getFileLink env fid = None
        \<or> (\<exists>fileUrl. getFileLink env fid = Some fileUrl \<and> fetch_buffer env fileUrl = None)
        \<longrightarrow> fst (processImage_p1 env fid s1) = s1)
   \<and> ((\<exists>fileUrl imageBuffer. getFileLink env fid = Some fileUrl
          \<and> fetch_buffer env fileUrl = Some imageBuffer
          \<and> sharp_rotate_jpeg env imageBuffer = None)
        \<longrightarrow> fst (processImage_p1 env fid s1) = s1)"
proof -
  have a: "images (fst (processImage env fid s)) \<noteq> images s \<longrightarrow>
      (\<exists>fileUrl imageBuffer processedImage.
          getFileLink env fid = Some fileUrl
        \<and> fetch_buffer env fileUrl = Some imageBuffer
        \<and> sharp_rotate_jpeg env imageBuffer = Some processedImage
        \<and> fst (processImage env fid s) = s\<lparr>images := images s @ [processedImage]\<rparr>)"
    by (simp add: processImage_session fetch_and_normalize_cases split: option.splits)
  have b: "getFileLink env fid = None
        \<or> (\<exists>fileUrl. getFileLink env fid = Some fileUrl \<and> fetch_buffer env fileUrl = None)
        \<longrightarrow> fst (processImage env fid s) = s"
    by (auto simp: processImage_session fetch_and_normalize_cases)
  have c: "(\<exists>fileUrl imageBuffer. getFileLink env fid = Some fileUrl
          \<and> fetch_buffer env fileUrl = Some imageBuffer
          \<and> sharp_rotate_jpeg env imageBuffer = None)
        \<longrightarrow> fst (processImage env fid s) = s"
    by (auto simp: processImage_session fetch_and_normalize_cases)
  have a1: "images_p1 (fst (processImage_p1 env fid s1)) \<noteq> images_p1 s1 \<longrightarrow>
      (\<exists>fileUrl imageBuffer processedImage w h.
          getFileLink env fid = Some fileUrl
        \<and> fetch_buffer env fileUrl = Some imageBuffer
        \<and> sharp_rotate_jpeg env imageBuffer = Some processedImage
        \<and> sharp_metadata env processedImage = Some (w, h)
        \<and> fst (processImage_p1 env fid s1) =
            s1\<lparr>images_p1 := images_p1 s1 @ [\<lparr>buffer = processedImage, width = w, height = h\<rparr>]\<rparr>)"
    by (simp add: processImage_p1_session fetch_and_normalize_p1_cases split: option.splits)
  have b1: "getFileLink env fid = None
        \<or> (\<exists>fileUrl. getFileLink env fid = Some fileUrl \<and> fetch_buffer env fileUrl = None)
        \<longrightarrow> fst (processImage_p1 env fid s1) = s1"
    by (auto simp: processImage_p1_session fetch_and_normalize_p1_cases)
  have c1: "(\<exists>fileUrl imageBuffer. getFileLink env fid = Some fileUrl
          \<and> fetch_buffer env fileUrl = Some imageBuffer
          \<and> sharp_rotate_jpeg env imageBuffer = None)
        \<longrightarrow> fst (processImage_p1 env fid s1) = s1"
    by (auto simp: processImage_p1_session fetch_and_normalize_p1_cases)
  from a b c a1 b1 c1 show ?thesis by blast
qed


theorem ingest_frame_witness:
  "images (fst (processImage env_ok ''a'' \<lparr>images = [[7]], lastActive = 1\<rparr>)) \<noteq> [[7]]
   \<and> fst (processImage env_ok ''a'' \<lparr>images = [[7]], lastActive = 1\<rparr>)
        = \<lparr>images = [[7], [15]], lastActive = 1\<rparr>
   \<and> getFileLink (env_ok\<lparr>fetch_buffer := \<lambda>u. None\<rparr>) ''a'' = Some ''https://files/a''
   \<and> fetch_buffer (env_ok\<lparr>fetch_buffer := \<lambda>u. None\<rparr>) ''https://files/a'' = None
   \<and> fst (processImage (env_ok\<lparr>fetch_buffer := \<lambda>u. None\<rparr>) ''a''
          \<lparr>images = [[7]], lastActive = 1\<rparr>) = \<lparr>images = [[7]], lastActive = 1\<rparr>
   \<and> sharp_rotate_jpeg (env_ok\<lparr>sharp_rotate_jpeg := \<lambda>b. None\<rparr>) [15] = None
   \<and> fst (processImage (env_ok\<lparr>sharp_rotate_jpeg := \<lambda>b. None\<rparr>) ''a''
          \<lparr>images = [[7]], lastActive = 1\<rparr>) = \<lparr>images = [[7]], lastActive = 1\<rparr>
   \<and> fst (processImage_p1 env_ok ''a'' \<lparr>images_p1 = [], timestamp = None\<rparr>)
        = \<lparr>images_p1 = [\<lparr>buffer = [15], width = 640, height = 480\<rparr>], timestamp = None\<rparr>
   \<and> fst (processImage_p1 (env_ok\<lparr>fetch_buffer := \<lambda>u. None\<rparr>) ''a''
          \<lparr>images_p1 = [], timestamp = None\<rparr>) = \<lparr>images_p1 = [], timestamp = None\<rparr>
   \<and> fst (processImage_p1 (env_ok\<lparr>sharp_rotate_jpeg := \<lambda>b. None\<rparr>) ''a''
          \<lparr>images_p1 = [], timestamp = None\<rparr>) = \<lparr>images_p1 = [], timestamp = None\<rparr>"
  using
    ingest_frame [of env_ok "''a''" "\<lparr>images = [[7]], lastActive = 1\<rparr>"
      "\<lparr>images_p1 = [], timestamp = None\<rparr>"]
    ingest_frame [of "env_ok\<lparr>fetch_buffer := \<lambda>u. None\<rparr>" "''a''"
      "\<lparr>images = [[7]], lastActive = 1\<rparr>" "\<lparr>images_p1 = [], timestamp = None\<rparr>"]
    ingest_frame [of "env_ok\<lparr>sharp_rotate_jpeg := \<lambda>b. None\<rparr>" "''a''"
      "\<lparr>images = [[7]], lastActive = 1\<rparr>" "\<lparr>images_p1 = [], timestamp = None\<rparr>"]
  by (simp add: env_ok_def processImage_def processImage_p1_def fetch_and_normalize_def
      fetch_and_normalize_p1_def MAX_IMAGES_PER_USER_def MAX_IMAGES_def)




section \<open>Builds under the size limit\<close>

lemma good_deliver:
  assumes "good K limit (None, r)" and "\<exists>t x. trace r = t @ [PdfOp x]"
  shows "good K limit (deliver limit chunks r)"
  using assms
proof (induction chunks arbitrary: r)
  case Nil
  then show ?case by simp
next
  case (Cons chunk chunks)
  let ?r' = "r\<lparr>buffers := buffers r @ [chunk], totalSize := totalSize r + length chunk\<rparr>"
  show ?case
  proof (cases "totalSize ?r' > limit")
    case True
    with Cons.prems show ?thesis by (simp add: good_def)
  next
    case False
    with Cons.prems have "good K limit (None, ?r')" and "\<exists>t x. trace ?r' = t @ [PdfOp x]"
      by (simp_all add: good_def)
    then have "good K limit (deliver limit chunks ?r')" by (rule Cons.IH)
    with False show ?thesis by (simp add: Let_def)
  qed
qed

lemma good_call:
  assumes "good K limit (None, r)" and "K (PdfOp x)"
  shows "good K limit (pdf_call env limit x r)"
  unfolding pdf_call_def
  using assms by (intro good_deliver) (simp_all add: good_def)

lemma good_add_images:
  assumes "good build_effect MAX_PDF_SIZE (None, r)"
  shows "good build_effect MAX_PDF_SIZE (add_images env imgs r)"
  using assms
proof (induction imgs arbitrary: r)
  case Nil
  then show ?case by simp
next
  case (Cons imgBuffer rest)
  let ?rs = "r\<lparr>trace := trace r @ [CallSharp imgBuffer]\<rparr>"
  have rs: "good build_effect MAX_PDF_SIZE (None, ?rs)"
    using Cons.prems by (simp add: good_def)
  show ?case
  proof (cases "sharp_toBuffer env imgBuffer")
    case None
    with Cons.prems show ?thesis by (simp add: good_def)
  next
    case (Some image_buffer)
    let ?o1 = "pdf_call env MAX_PDF_SIZE (Image image_buffer (FitCentered 500 700)) ?rs"
    have o1: "good build_effect MAX_PDF_SIZE ?o1"
      using rs by (rule good_call) simp
    obtain fo1 r1 where e1: "?o1 = (fo1, r1)" by (cases ?o1)
    show ?thesis
    proof (cases fo1)
      case (Some e)
      with e1 o1 \<open>sharp_toBuffer env imgBuffer = Some image_buffer\<close> show ?thesis by simp
    next
      case None
      let ?o2 = "if rest \<noteq> [] then pdf_call env MAX_PDF_SIZE (AddPage None) r1 else (None, r1)"
      have g1: "good build_effect MAX_PDF_SIZE (None, r1)" using o1 e1 None by simp
      have o2: "good build_effect MAX_PDF_SIZE ?o2"
        using g1 by (simp add: good_call)
      obtain fo2 r2 where e2: "?o2 = (fo2, r2)" by (cases ?o2)
      show ?thesis
      proof (cases fo2)
        case (Some e)
        with e1 e2 o2 None \<open>sharp_toBuffer env imgBuffer = Some image_buffer\<close>
        show ?thesis by simp
      next
        case None
        with o2 e2 have "good build_effect MAX_PDF_SIZE (add_images env rest r2)"
          by (intro Cons.IH) simp
        with e1 e2 None \<open>fo1 = None\<close> \<open>sharp_toBuffer env imgBuffer = Some image_buffer\<close>
        show ?thesis by simp
      qed
    qed
  qed
qed

lemma good_start: "good K limit (None, \<lparr>trace = [], buffers = [], totalSize = 0\<rparr>)"
  by (simp add: good_def)

lemma good_build_pdf: "good build_effect MAX_PDF_SIZE (build_pdf env imgs)"
proof -
  let ?o0 = "pdf_call env MAX_PDF_SIZE (NewDocument True) \<lparr>trace = [], buffers = [], totalSize = 0\<rparr>"
  have o0: "good build_effect MAX_PDF_SIZE ?o0"
    using good_start by (rule good_call) simp
  obtain fo0 r0 where e0: "?o0 = (fo0, r0)" by (cases ?o0)
  show ?thesis
  proof (cases fo0)
    case (Some e)
    with e0 o0 show ?thesis by (simp add: build_pdf_def)
  next
    case None
    with o0 e0 have o1: "good build_effect MAX_PDF_SIZE (add_images env imgs r0)"
      by (intro good_add_images) simp
    obtain fo1 r1 where e1: "add_images env imgs r0 = (fo1, r1)"
      by (cases "add_images env imgs r0")
    show ?thesis
    proof (cases fo1)
      case (Some e)
      with e0 e1 o1 None show ?thesis by (simp add: build_pdf_def)
    next
      case None
      with o1 e1 have "good build_effect MAX_PDF_SIZE (pdf_call env MAX_PDF_SIZE EndDocument r1)"
        by (intro good_call) simp_all
      with e0 e1 None \<open>fo0 = None\<close> show ?thesis by (simp add: build_pdf_def)
    qed
  qed
qed


text \<open>What the invariant says once unfolded.\<close>

lemma good_facts:
  assumes "good K limit (fo, r)"
  shows "totalSize r = length (concat (buffers r))"
    and "list_all K (trace r)"
    and "limit < totalSize r \<longleftrightarrow> fo = Some SizeLimitExceeded"
    and "fo = Some SizeLimitExceeded \<Longrightarrow>
           buffers r \<noteq> [] \<and> totalSize r - length (last (buffers r)) \<le> limit
           \<and> (\<exists>t x. trace r = t @ [PdfOp x])"
    and "fo = None \<or> fo = Some SizeLimitExceeded \<or> fo = Some DecodeFailed"
  using assms by (auto simp: good_def split: option.splits if_splits)

lemma no_document_in_trace:
  assumes "list_all K t" and "\<not> K (SendDocument d)"
  shows "SendDocument d \<notin> set t"
  using assms by (auto simp: list_all_iff)


text \<open>The trace of a build records the calls on the writer.\<close>

lemma ops_of_append: "ops_of (a @ b) = ops_of a @ ops_of b"
  by (induction a rule: ops_of.induct) simp_all

lemma trace_deliver: "deliver limit chunks r = (fo, r') \<Longrightarrow> trace r' = trace r"
  by (induction chunks arbitrary: r) (auto simp: Let_def split: if_splits)

lemma trace_call:
  "pdf_call env limit x r = (fo, r') \<Longrightarrow> trace r' = trace r @ [PdfOp x]"
  by (auto simp: pdf_call_def dest: trace_deliver)

lemma ops_call:
  "pdf_call env limit x r = (fo, r') \<Longrightarrow> ops_of (trace r') = ops_of (trace r) @ [x]"
  by (simp add: trace_call ops_of_append)

lemma written_append:
  "written env before (xs @ ys) = written env before xs @ written env (before @ xs) ys"
  by (induction xs arbitrary: before) simp_all


lemma written_snoc:
  "written env [] (xs @ [x]) = written env [] xs @ pdf_emit env (xs @ [x])"
  by (simp add: written_append)

text \<open>
  The chunks the listener has pushed are the chunks of the calls made, in order: all of
  them while the build goes on, and up to the crossing chunk when the listener threw.
\<close>

lemma deliver_tied:
  assumes "deliver limit chunks r = (fo, r')"
  shows "\<exists>cs. buffers r @ chunks = buffers r' @ cs
            \<and> (fo = None \<longrightarrow> cs = [])
            \<and> (fo \<noteq> None \<longrightarrow> fo = Some SizeLimitExceeded)"
  using assms
proof (induction chunks arbitrary: r)
  case Nil
  then show ?case by simp
next
  case (Cons chunk chunks)
  let ?r' = "r\<lparr>buffers := buffers r @ [chunk], totalSize := totalSize r + length chunk\<rparr>"
  show ?case
  proof (cases "totalSize ?r' > limit")
    case True
    with Cons.prems show ?thesis by auto
  next
    case False
    with Cons.prems have "deliver limit chunks ?r' = (fo, r')" by (simp add: Let_def)
    from Cons.IH [OF this] show ?thesis by simp
  qed
qed

lemma call_tied:
  assumes "written env [] (ops_of (trace r)) = buffers r"
    and "pdf_call env limit x r = (fo, r')"
  shows "\<exists>cs. written env [] (ops_of (trace r')) = buffers r' @ cs
            \<and> (fo = None \<longrightarrow> cs = [])
            \<and> (fo \<noteq> None \<longrightarrow> fo = Some SizeLimitExceeded)"
proof -
  have "deliver limit (pdf_emit env (ops_of (trace r) @ [x])) (r\<lparr>trace := trace r @ [PdfOp x]\<rparr>)
          = (fo, r')"
    using assms(2) by (simp add: pdf_call_def)
  from deliver_tied [OF this] obtain cs where
    "buffers r @ pdf_emit env (ops_of (trace r) @ [x]) = buffers r' @ cs"
    "fo = None \<longrightarrow> cs = []" "fo \<noteq> None \<longrightarrow> fo = Some SizeLimitExceeded"
    by auto
  moreover have "written env [] (ops_of (trace r'))
      = buffers r @ pdf_emit env (ops_of (trace r) @ [x])"
    using ops_call [OF assms(2)] assms(1) by (simp add: written_snoc)
  ultimately show ?thesis by auto
qed

lemma add_images_tied:
  assumes "written env [] (ops_of (trace r)) = buffers r"
    and "add_images env imgs r = (fo, r')"
  shows "\<exists>cs. written env [] (ops_of (trace r')) = buffers r' @ cs
            \<and> (fo \<noteq> Some SizeLimitExceeded \<longrightarrow> cs = [])
            \<and> (fo = Some DecodeFailed \<longrightarrow> (\<exists>b \<in> set imgs. sharp_toBuffer env b = None))"
  using assms
proof (induction imgs arbitrary: r)
  case Nil
  then show ?case by simp
next
  case (Cons imgBuffer rest)
  let ?rs = "r\<lparr>trace := trace r @ [CallSharp imgBuffer]\<rparr>"
  have rs: "written env [] (ops_of (trace ?rs)) = buffers ?rs"
    using Cons.prems(1) by (simp add: ops_of_append)
  show ?case
  proof (cases "sharp_toBuffer env imgBuffer")
    case None
    with Cons.prems(2) rs show ?thesis by auto
  next
    case (Some d)
    obtain fo1 r1 where
      e1: "pdf_call env MAX_PDF_SIZE (Image d (FitCentered 500 700)) ?rs = (fo1, r1)"
      by (cases "pdf_call env MAX_PDF_SIZE (Image d (FitCentered 500 700)) ?rs")
    from call_tied [OF rs e1] obtain cs1 where
      t1: "written env [] (ops_of (trace r1)) = buffers r1 @ cs1"
      and n1: "fo1 = None \<longrightarrow> cs1 = []"
      and f1: "fo1 \<noteq> None \<longrightarrow> fo1 = Some SizeLimitExceeded"
      by blast
    show ?thesis
    proof (cases fo1)
      case (Some e)
      with Cons.prems(2) \<open>sharp_toBuffer env imgBuffer = Some d\<close> e1 t1 f1
      show ?thesis by auto
    next
      case None
      with t1 n1 have g1: "written env [] (ops_of (trace r1)) = buffers r1" by simp
      obtain fo2 r2 where e2:
        "(if rest \<noteq> [] then pdf_call env MAX_PDF_SIZE (AddPage None) r1 else (None, r1))
           = (fo2, r2)"
        by (cases "if rest \<noteq> [] then pdf_call env MAX_PDF_SIZE (AddPage None) r1
                   else (None, r1)")
      have "\<exists>cs. written env [] (ops_of (trace r2)) = buffers r2 @ cs
            \<and> (fo2 = None \<longrightarrow> cs = [])
            \<and> (fo2 \<noteq> None \<longrightarrow> fo2 = Some SizeLimitExceeded)"
      proof (cases "rest = []")
        case True
        with e2 g1 show ?thesis by auto
      next
        case False
        with e2 have "pdf_call env MAX_PDF_SIZE (AddPage None) r1 = (fo2, r2)" by simp
        from call_tied [OF g1 this] show ?thesis .
      qed
      then obtain cs2 where
        t2: "written env [] (ops_of (trace r2)) = buffers r2 @ cs2"
        and n2: "fo2 = None \<longrightarrow> cs2 = []"
        and f2: "fo2 \<noteq> None \<longrightarrow> fo2 = Some SizeLimitExceeded"
        by blast
      show ?thesis
      proof (cases fo2)
        case (Some e)
        with Cons.prems(2) \<open>sharp_toBuffer env imgBuffer = Some d\<close> e1 \<open>fo1 = None\<close> e2 t2 f2
        show ?thesis by auto
      next
        case None
        with t2 n2 have g2: "written env [] (ops_of (trace r2)) = buffers r2" by simp
        have rec: "add_images env rest r2 = (fo, r')"
          using Cons.prems(2) \<open>sharp_toBuffer env imgBuffer = Some d\<close> e1 \<open>fo1 = None\<close> e2 None
          by simp
        from Cons.IH [OF g2 rec] show ?thesis by auto
      qed
    qed
  qed
qed

lemma build_tied:
  assumes "build_pdf env imgs = (fo, r)"
  shows "\<exists>cs. written env [] (ops_of (trace r)) = buffers r @ cs
            \<and> (fo \<noteq> Some SizeLimitExceeded \<longrightarrow> cs = [])
            \<and> (fo = Some DecodeFailed \<longrightarrow> (\<exists>b \<in> set imgs. sharp_toBuffer env b = None))"
proof -
  let ?r0 = "\<lparr>trace = [], buffers = [], totalSize = 0\<rparr>"
  have g: "written env [] (ops_of (trace ?r0)) = buffers ?r0" by simp
  obtain fo0 r0 where e0: "pdf_call env MAX_PDF_SIZE (NewDocument True) ?r0 = (fo0, r0)"
    by (cases "pdf_call env MAX_PDF_SIZE (NewDocument True) ?r0")
  from call_tied [OF g e0] obtain cs0 where
    t0: "written env [] (ops_of (trace r0)) = buffers r0 @ cs0"
    and n0: "fo0 = None \<longrightarrow> cs0 = []"
    and f0: "fo0 \<noteq> None \<longrightarrow> fo0 = Some SizeLimitExceeded"
    by blast
  show ?thesis
  proof (cases fo0)
    case (Some e)
    with assms e0 t0 f0 show ?thesis by (auto simp: build_pdf_def)
  next
    case None
    with t0 n0 have g0: "written env [] (ops_of (trace r0)) = buffers r0" by simp
    obtain fo1 r1 where e1: "add_images env imgs r0 = (fo1, r1)"
      by (cases "add_images env imgs r0")
    from add_images_tied [OF g0 e1] obtain cs1 where
      t1: "written env [] (ops_of (trace r1)) = buffers r1 @ cs1"
      and n1: "fo1 \<noteq> Some SizeLimitExceeded \<longrightarrow> cs1 = []"
      and d1: "fo1 = Some DecodeFailed \<longrightarrow> (\<exists>b \<in> set imgs. sharp_toBuffer env b = None)"
      by blast
    show ?thesis
    proof (cases fo1)
      case (Some e)
      with assms e0 \<open>fo0 = None\<close> e1 t1 n1 d1 show ?thesis by (auto simp: build_pdf_def)
    next
      case None
      with t1 n1 have g1: "written env [] (ops_of (trace r1)) = buffers r1" by simp
      have e2: "pdf_call env MAX_PDF_SIZE EndDocument r1 = (fo, r)"
        using assms e0 \<open>fo0 = None\<close> e1 None by (simp add: build_pdf_def)
      from call_tied [OF g1 e2] show ?thesis by auto
    qed
  qed
qed


text \<open>The two ways \<^verbatim>\<open>/convert\<close> of \<^verbatim>\<open>index.js\<close> ends on a session with images.\<close>

lemma convert_failed:
  assumes "images s \<noteq> []" and "build_pdf env (images s) = (Some e, r)"
  shows "convert env s =
           (s, SendReply CreatingPdf # trace r @ [LogError e, SendReply (PdfFailed e)])"
    and "SendDocument d \<notin> set (snd (convert env s))"
proof -
  show c: "convert env s =
           (s, SendReply CreatingPdf # trace r @ [LogError e, SendReply (PdfFailed e)])"
    using assms by (simp add: convert_def)
  have "list_all build_effect (trace r)"
    using good_build_pdf [of env "images s"] assms(2) by (simp add: good_def)
  then have "SendDocument d \<notin> set (trace r)" by (rule no_document_in_trace) simp
  with c show "SendDocument d \<notin> set (snd (convert env s))" by simp
qed

lemma convert_built:
  assumes "images s \<noteq> []" and "build_pdf env (images s) = (None, r)"
  shows "convert env s =
           (if replyWithDocument env (concat (buffers r))
            then (s\<lparr>images := []\<rparr>,
                  SendReply CreatingPdf # trace r @ [SendDocument (concat (buffers r))])
            else (s, SendReply CreatingPdf # trace r @
                       [LogError SendFailed, SendReply (PdfFailed SendFailed)]))"
    and "SendDocument d \<in> set (snd (convert env s)) \<longleftrightarrow>
           replyWithDocument env (concat (buffers r)) \<and> d = concat (buffers r)"
proof -
  show c: "convert env s =
           (if replyWithDocument env (concat (buffers r))
            then (s\<lparr>images := []\<rparr>,
                  SendReply CreatingPdf # trace r @ [SendDocument (concat (buffers r))])
            else (s, SendReply CreatingPdf # trace r @
                       [LogError SendFailed, SendReply (PdfFailed SendFailed)]))"
    using assms by (simp add: convert_def Let_def)
  have "list_all build_effect (trace r)"
    using good_build_pdf [of env "images s"] assms(2) by (simp add: good_def)
  then have "SendDocument d \<notin> set (trace r)" by (rule no_document_in_trace) simp
  with c show "SendDocument d \<in> set (snd (convert env s)) \<longleftrightarrow>
           replyWithDocument env (concat (buffers r)) \<and> d = concat (buffers r)"
    by auto
qed

lemma convert_sent_size:
  assumes "SendDocument d \<in> set (snd (convert env s))"
  shows "length d \<le> MAX_PDF_SIZE \<and> fst (convert env s) = s\<lparr>images := []\<rparr> \<and> images s \<noteq> []"
proof -
  have ne: "images s \<noteq> []"
    using assms by (auto simp: convert_def)
  obtain fo r where b: "build_pdf env (images s) = (fo, r)"
    by (cases "build_pdf env (images s)")
  have fo: "fo = None"
  proof (cases fo)
    case (Some e)
    with convert_failed(2) [where s = s and env = env and e = e and r = r and d = d, OF ne] b assms show ?thesis by simp
  qed simp
  with convert_built(1) [where s = s and env = env and r = r, OF ne]
    convert_built(2) [where s = s and env = env and r = r and d = d, OF ne] b assms
  have sent: "replyWithDocument env (concat (buffers r))" "d = concat (buffers r)"
    and c: "fst (convert env s) = s\<lparr>images := []\<rparr>"
    by simp_all
  have "good build_effect MAX_PDF_SIZE (None, r)"
    using good_build_pdf [of env "images s"] b fo by simp
  then have "length (concat (buffers r)) \<le> MAX_PDF_SIZE"
    by (simp add: good_def)
  with sent c ne show ?thesis by simp
qed


text \<open>The calls of a build of \<^verbatim>\<open>index.js\<close> that ran to the end.\<close>

lemma ops_add_images:
  assumes "add_images env imgs r = (None, r')"
  shows "\<exists>ds. map (sharp_toBuffer env) imgs = map Some ds
            \<and> ops_of (trace r') = ops_of (trace r) @ plan ds"
  using assms
proof (induction imgs arbitrary: r)
  case Nil
  then show ?case by simp
next
  case (Cons imgBuffer rest)
  let ?rs = "r\<lparr>trace := trace r @ [CallSharp imgBuffer]\<rparr>"
  from Cons.prems obtain d where d: "sharp_toBuffer env imgBuffer = Some d"
    by (cases "sharp_toBuffer env imgBuffer") auto
  obtain fo1 r1 where e1: "pdf_call env MAX_PDF_SIZE (Image d (FitCentered 500 700)) ?rs = (fo1, r1)"
    by (cases "pdf_call env MAX_PDF_SIZE (Image d (FitCentered 500 700)) ?rs")
  with Cons.prems d have fo1: "fo1 = None" by (cases fo1) auto
  obtain fo2 r2 where e2:
    "(if rest \<noteq> [] then pdf_call env MAX_PDF_SIZE (AddPage None) r1 else (None, r1)) = (fo2, r2)"
    by (cases "if rest \<noteq> [] then pdf_call env MAX_PDF_SIZE (AddPage None) r1 else (None, r1)")
  with Cons.prems d e1 fo1 have fo2: "fo2 = None" by (cases fo2) auto
  from Cons.prems d e1 fo1 e2 fo2 have rec: "add_images env rest r2 = (None, r')" by simp
  from Cons.IH [OF rec] obtain ds where
    ds: "map (sharp_toBuffer env) rest = map Some ds"
    and ops: "ops_of (trace r') = ops_of (trace r2) @ plan ds"
    by blast
  have o1: "ops_of (trace r1) = ops_of (trace r) @ [Image d (FitCentered 500 700)]"
    using ops_call [OF e1] by (simp add: ops_of_append)
  have o2: "ops_of (trace r2) = ops_of (trace r1) @ (if rest \<noteq> [] then [AddPage None] else [])"
    using e2 by (auto split: if_splits dest: ops_call)
  have len: "ds \<noteq> [] \<longleftrightarrow> rest \<noteq> []"
    using ds by (cases ds; cases rest) auto
  have "map (sharp_toBuffer env) (imgBuffer # rest) = map Some (d # ds)"
    using d ds by simp
  moreover have "ops_of (trace r') = ops_of (trace r) @ plan (d # ds)"
    using ops o1 o2 len by simp
  ultimately show ?case by blast
qed

lemma build_ops:
  assumes "build_pdf env imgs = (None, r)"
  shows "\<exists>ds. map (sharp_toBuffer env) imgs = map Some ds
            \<and> ops_of (trace r) = NewDocument True # plan ds @ [EndDocument]"
proof -
  let ?r0 = "\<lparr>trace = [], buffers = [], totalSize = 0\<rparr>"
  obtain fo0 r0 where e0: "pdf_call env MAX_PDF_SIZE (NewDocument True) ?r0 = (fo0, r0)"
    by (cases "pdf_call env MAX_PDF_SIZE (NewDocument True) ?r0")
  with assms have fo0: "fo0 = None" by (cases fo0) (auto simp: build_pdf_def)
  obtain fo1 r1 where e1: "add_images env imgs r0 = (fo1, r1)"
    by (cases "add_images env imgs r0")
  with assms e0 fo0 have fo1: "fo1 = None" by (cases fo1) (auto simp: build_pdf_def)
  from assms e0 fo0 e1 fo1 have e2: "pdf_call env MAX_PDF_SIZE EndDocument r1 = (None, r)"
    by (simp add: build_pdf_def)
  from ops_add_images [of env imgs r0 r1] e1 fo1 obtain ds where
    ds: "map (sharp_toBuffer env) imgs = map Some ds"
    and ops: "ops_of (trace r1) = ops_of (trace r0) @ plan ds"
    by blast
  from ops_call [OF e0] ops ops_call [OF e2]
  have "ops_of (trace r) = NewDocument True # plan ds @ [EndDocument]" by simp
  with ds show ?thesis by blast
qed


text \<open>A build of \<^verbatim>\<open>index.js\<close> whose output stays within the limit runs to the end.\<close>

lemma deliver_within:
  "totalSize r + length (concat chunks) \<le> limit \<Longrightarrow>
     deliver limit chunks r =
       (None, r\<lparr>buffers := buffers r @ chunks,
                totalSize := totalSize r + length (concat chunks)\<rparr>)"
  by (induction chunks arbitrary: r) (simp_all add: Let_def add.assoc)

lemma call_within:
  assumes "totalSize r + length (concat (pdf_emit env (ops_of (trace r) @ [x]))) \<le> limit"
  shows "pdf_call env limit x r =
           (None, r\<lparr>trace := trace r @ [PdfOp x],
                    buffers := buffers r @ pdf_emit env (ops_of (trace r) @ [x]),
                    totalSize := totalSize r
                      + length (concat (pdf_emit env (ops_of (trace r) @ [x])))\<rparr>)"
  using assms by (simp add: pdf_call_def deliver_within)

lemma call_within_ex:
  assumes "totalSize r + length (concat (pdf_emit env (ops_of (trace r) @ [x]))) \<le> limit"
  shows "\<exists>r'. pdf_call env limit x r = (None, r')
            \<and> buffers r' = buffers r @ pdf_emit env (ops_of (trace r) @ [x])
            \<and> totalSize r' = totalSize r
                 + length (concat (pdf_emit env (ops_of (trace r) @ [x])))
            \<and> ops_of (trace r') = ops_of (trace r) @ [x]"
  using call_within [OF assms] by (simp add: ops_of_append)

lemma add_images_within:
  assumes "map (sharp_toBuffer env) imgs = map Some ds"
    and "totalSize r + length (concat (written env (ops_of (trace r)) (plan ds))) \<le> MAX_PDF_SIZE"
  shows "\<exists>r'. add_images env imgs r = (None, r')
            \<and> buffers r' = buffers r @ written env (ops_of (trace r)) (plan ds)
            \<and> totalSize r' = totalSize r
                 + length (concat (written env (ops_of (trace r)) (plan ds)))
            \<and> ops_of (trace r') = ops_of (trace r) @ plan ds"
  using assms
proof (induction imgs arbitrary: r ds)
  case Nil
  then show ?case by simp
next
  case (Cons imgBuffer rest)
  from Cons.prems(1) obtain d ds' where ds: "ds = d # ds'"
    and d: "sharp_toBuffer env imgBuffer = Some d"
    and ds': "map (sharp_toBuffer env) rest = map Some ds'"
    by (cases ds) auto
  have len: "ds' \<noteq> [] \<longleftrightarrow> rest \<noteq> []"
    using ds' by (cases ds'; cases rest) auto
  let ?B = "ops_of (trace r)"
  let ?img = "Image d (FitCentered 500 700)"
  let ?sep = "if rest \<noteq> [] then [AddPage None] else []"
  let ?rs = "r\<lparr>trace := trace r @ [CallSharp imgBuffer]\<rparr>"
  have pl: "plan ds = ?img # ?sep @ plan ds'" using ds len by simp
  have w: "written env ?B (plan ds) =
      pdf_emit env (?B @ [?img]) @ written env (?B @ [?img]) ?sep
        @ written env (?B @ [?img] @ ?sep) (plan ds')"
    by (simp add: pl written_append)
  have B: "ops_of (trace ?rs) = ?B" by (simp add: ops_of_append)
  have "totalSize ?rs + length (concat (pdf_emit env (ops_of (trace ?rs) @ [?img])))
          \<le> MAX_PDF_SIZE"
    using Cons.prems(2) w B by simp
  from call_within_ex [OF this] obtain r1 where
    e1: "pdf_call env MAX_PDF_SIZE ?img ?rs = (None, r1)"
    and b1: "buffers r1 = buffers r @ pdf_emit env (?B @ [?img])"
    and t1: "totalSize r1 = totalSize r + length (concat (pdf_emit env (?B @ [?img])))"
    and B1: "ops_of (trace r1) = ?B @ [?img]"
    using B by auto
  have "\<exists>r2. (if rest \<noteq> [] then pdf_call env MAX_PDF_SIZE (AddPage None) r1 else (None, r1))
                = (None, r2)
          \<and> buffers r2 = buffers r1 @ written env (?B @ [?img]) ?sep
          \<and> totalSize r2 = totalSize r1 + length (concat (written env (?B @ [?img]) ?sep))
          \<and> ops_of (trace r2) = ?B @ [?img] @ ?sep"
  proof (cases "rest = []")
    case True
    with B1 show ?thesis by simp
  next
    case False
    have "totalSize r1 + length (concat (pdf_emit env (ops_of (trace r1) @ [AddPage None])))
            \<le> MAX_PDF_SIZE"
      using Cons.prems(2) w False t1 B1 by simp
    from call_within_ex [OF this] False B1 show ?thesis by simp
  qed
  then obtain r2 where
    e2: "(if rest \<noteq> [] then pdf_call env MAX_PDF_SIZE (AddPage None) r1 else (None, r1))
           = (None, r2)"
    and b2: "buffers r2 = buffers r1 @ written env (?B @ [?img]) ?sep"
    and t2: "totalSize r2 = totalSize r1 + length (concat (written env (?B @ [?img]) ?sep))"
    and B2: "ops_of (trace r2) = ?B @ [?img] @ ?sep"
    by blast
  have "totalSize r2 + length (concat (written env (ops_of (trace r2)) (plan ds')))
          \<le> MAX_PDF_SIZE"
    using Cons.prems(2) w t1 t2 B2 by simp
  from Cons.IH [OF ds' this] obtain r' where
    rec: "add_images env rest r2 = (None, r')"
    and b': "buffers r' = buffers r2 @ written env (ops_of (trace r2)) (plan ds')"
    and t': "totalSize r' = totalSize r2
               + length (concat (written env (ops_of (trace r2)) (plan ds')))"
    and o': "ops_of (trace r') = ops_of (trace r2) @ plan ds'"
    by blast
  have "add_images env (imgBuffer # rest) r = (None, r')"
    by (simp only: add_images.simps d option.case e1 e2 prod.case rec)
  moreover have "buffers r' = buffers r @ written env ?B (plan ds)"
    using b' b1 b2 B2 w by simp
  moreover have "totalSize r' = totalSize r + length (concat (written env ?B (plan ds)))"
    using t' t1 t2 B2 w by simp
  moreover have "ops_of (trace r') = ?B @ plan ds"
    using o' B2 pl by simp
  ultimately show ?case by blast
qed

lemma build_within:
  assumes "map (sharp_toBuffer env) imgs = map Some ds"
    and "length (concat (written env [] (NewDocument True # plan ds @ [EndDocument])))
           \<le> MAX_PDF_SIZE"
  shows "\<exists>r. build_pdf env imgs = (None, r)
            \<and> buffers r = written env [] (NewDocument True # plan ds @ [EndDocument])"
proof -
  let ?r0 = "\<lparr>trace = [], buffers = [], totalSize = 0\<rparr>"
  have w: "written env [] (NewDocument True # plan ds @ [EndDocument]) =
      pdf_emit env [NewDocument True] @ written env [NewDocument True] (plan ds)
        @ pdf_emit env (NewDocument True # plan ds @ [EndDocument])"
    by (simp add: written_append)
  have "totalSize ?r0 + length (concat (pdf_emit env (ops_of (trace ?r0) @ [NewDocument True])))
          \<le> MAX_PDF_SIZE"
    using assms(2) w by simp
  from call_within_ex [OF this] obtain r0 where
    e0: "pdf_call env MAX_PDF_SIZE (NewDocument True) ?r0 = (None, r0)"
    and b0: "buffers r0 = pdf_emit env [NewDocument True]"
    and t0: "totalSize r0 = length (concat (pdf_emit env [NewDocument True]))"
    and B0: "ops_of (trace r0) = [NewDocument True]"
    by auto
  have "totalSize r0 + length (concat (written env (ops_of (trace r0)) (plan ds)))
          \<le> MAX_PDF_SIZE"
    using assms(2) w t0 B0 by simp
  from add_images_within [OF assms(1) this] obtain r1 where
    e1: "add_images env imgs r0 = (None, r1)"
    and b1: "buffers r1 = buffers r0 @ written env [NewDocument True] (plan ds)"
    and t1: "totalSize r1 = totalSize r0
               + length (concat (written env [NewDocument True] (plan ds)))"
    and B1: "ops_of (trace r1) = NewDocument True # plan ds"
    using B0 by auto
  have "totalSize r1 + length (concat (pdf_emit env (ops_of (trace r1) @ [EndDocument])))
          \<le> MAX_PDF_SIZE"
    using assms(2) w t0 t1 B1 by simp
  from call_within_ex [OF this] obtain r where
    e2: "pdf_call env MAX_PDF_SIZE EndDocument r1 = (None, r)"
    and b2: "buffers r = buffers r1 @ pdf_emit env (NewDocument True # plan ds @ [EndDocument])"
    using B1 by auto
  have "build_pdf env imgs = (None, r)"
    by (simp only: build_pdf_def e0 prod.case option.case e1 e2)
  moreover have "buffers r = written env [] (NewDocument True # plan ds @ [EndDocument])"
    using b0 b1 b2 w by simp
  ultimately show ?thesis by blast
qed


lemma map_Some_eq: "map Some xs = map Some ys \<Longrightarrow> xs = ys"
  by (simp add: inj_map_eq_map)

text \<open>
  A build of \<^verbatim>\<open>index.js\<close> ends without an exception only if sharp read every stored
  image, and then the bytes pushed are all the chunks of all the calls, within the limit.
\<close>

lemma build_success_bytes:
  assumes "build_pdf env imgs = (None, r)"
  shows "\<exists>ds. map (sharp_toBuffer env) imgs = map Some ds
            \<and> ops_of (trace r) = NewDocument True # plan ds @ [EndDocument]
            \<and> buffers r = written env [] (NewDocument True # plan ds @ [EndDocument])
            \<and> length (concat (written env [] (NewDocument True # plan ds @ [EndDocument])))
                 \<le> MAX_PDF_SIZE"
proof -
  from build_ops [OF assms] obtain ds where
    ds: "map (sharp_toBuffer env) imgs = map Some ds"
    and ops: "ops_of (trace r) = NewDocument True # plan ds @ [EndDocument]"
    by blast
  from build_tied [OF assms] ops
  have b: "buffers r = written env [] (NewDocument True # plan ds @ [EndDocument])" by auto
  have "good build_effect MAX_PDF_SIZE (None, r)"
    using good_build_pdf [of env imgs] assms by simp
  then have "length (concat (buffers r)) \<le> MAX_PDF_SIZE" by (simp add: good_def)
  with ds ops b show ?thesis by auto
qed

lemma build_beyond:
  assumes "map (sharp_toBuffer env) imgs = map Some ds"
    and "MAX_PDF_SIZE
           < length (concat (written env [] (NewDocument True # plan ds @ [EndDocument])))"
  shows "\<exists>r. build_pdf env imgs = (Some SizeLimitExceeded, r)"
proof -
  obtain fo r where b: "build_pdf env imgs = (fo, r)" by (cases "build_pdf env imgs")
  have g: "good build_effect MAX_PDF_SIZE (fo, r)"
    using good_build_pdf [of env imgs] b by simp
  have "fo \<noteq> None"
  proof
    assume "fo = None"
    with b build_success_bytes [of env imgs r] obtain ds' where
      "map (sharp_toBuffer env) imgs = map Some ds'"
      "length (concat (written env [] (NewDocument True # plan ds' @ [EndDocument])))
         \<le> MAX_PDF_SIZE"
      by auto
    with assms(1) map_Some_eq [of ds ds'] assms(2) show False by simp
  qed
  moreover have "fo \<noteq> Some DecodeFailed"
  proof
    assume "fo = Some DecodeFailed"
    with build_tied [OF b] obtain x where "x \<in> set imgs" "sharp_toBuffer env x = None"
      by auto
    then have "None \<in> set (map (sharp_toBuffer env) imgs)" by force
    with assms(1) show False by auto
  qed
  ultimately have "fo = Some SizeLimitExceeded"
    using good_facts(5) [OF g] by blast
  with b show ?thesis by blast
qed

lemma build_undecodable:
  assumes "b \<in> set imgs" and "sharp_toBuffer env b = None"
  shows "\<exists>e r. build_pdf env imgs = (Some e, r)"
proof -
  obtain fo r where bd: "build_pdf env imgs = (fo, r)" by (cases "build_pdf env imgs")
  have "fo \<noteq> None"
  proof
    assume "fo = None"
    with bd build_ops [of env imgs r] obtain ds where
      "map (sharp_toBuffer env) imgs = map Some ds" by auto
    moreover have "None \<in> set (map (sharp_toBuffer env) imgs)" using assms by force
    ultimately show False by auto
  qed
  with bd show ?thesis by (cases fo) auto
qed

section \<open>Builds of part_001\<close>

lemma ops_of_map: "ops_of (map PdfOp xs) = xs"
  by (induction xs) simp_all

lemma add_pages_p1_run:
  "add_pages_p1 imgs r = r\<lparr>trace := trace r @ map PdfOp (plan_p1 imgs)\<rparr>"
proof (induction imgs arbitrary: r)
  case Nil
  show ?case by simp
next
  case (Cons img rest)
  obtain pageWidth pageHeight where sz: "page_size_p1 img = (pageWidth, pageHeight)"
    by (cases "page_size_p1 img")
  show ?case by (simp add: sz Cons.IH pdf_buffered_def)
qed

text \<open>
  The build of \<^verbatim>\<open>part_001\<close> hands the listener the chunks of all its calls, after the
  calls.
\<close>

lemma build_pdf_p1_eq:
  "build_pdf_p1 env imgs =
     deliver PDF_LIMIT_p1 (written env [] (NewDocument False # plan_p1 imgs @ [EndDocument]))
       \<lparr>trace = map PdfOp (NewDocument False # plan_p1 imgs @ [EndDocument]),
        buffers = [], totalSize = 0\<rparr>"
  by (simp add: build_pdf_p1_def add_pages_p1_run pdf_buffered_def ops_of_append ops_of_map)

lemma build_p1_trace:
  assumes "build_pdf_p1 env imgs = (fo, r)"
  shows "trace r = map PdfOp (NewDocument False # plan_p1 imgs @ [EndDocument])"
  using assms trace_deliver [of PDF_LIMIT_p1 _ _ fo r] by (simp add: build_pdf_p1_eq)

lemma build_ops_p1:
  assumes "build_pdf_p1 env imgs = (fo, r)"
  shows "ops_of (trace r) = NewDocument False # plan_p1 imgs @ [EndDocument]"
  using build_p1_trace [OF assms] ops_of_map [of "NewDocument False # plan_p1 imgs @ [EndDocument]"]
  by simp

lemma good_build_pdf_p1: "good writer_call PDF_LIMIT_p1 (build_pdf_p1 env imgs)"
  unfolding build_pdf_p1_eq
  by (rule good_deliver) (simp_all add: good_def list_all_iff)

lemma build_p1_within:
  assumes "length (concat (written env [] (NewDocument False # plan_p1 imgs @ [EndDocument])))
           \<le> PDF_LIMIT_p1"
  shows "\<exists>r. build_pdf_p1 env imgs = (None, r)
            \<and> buffers r = written env [] (NewDocument False # plan_p1 imgs @ [EndDocument])"
  using assms by (simp add: build_pdf_p1_eq deliver_within)

lemma build_p1_success_bytes:
  assumes "build_pdf_p1 env imgs = (None, r)"
  shows "buffers r = written env [] (NewDocument False # plan_p1 imgs @ [EndDocument])
    \<and> length (concat (written env [] (NewDocument False # plan_p1 imgs @ [EndDocument])))
         \<le> PDF_LIMIT_p1"
proof -
  let ?r0 = "\<lparr>trace = map PdfOp (NewDocument False # plan_p1 imgs @ [EndDocument]),
        buffers = [], totalSize = 0\<rparr>"
  have "deliver PDF_LIMIT_p1 (written env [] (NewDocument False # plan_p1 imgs @ [EndDocument]))
          ?r0 = (None, r)"
    using assms by (simp only: build_pdf_p1_eq)
  from deliver_tied [OF this]
  have b: "buffers r = written env [] (NewDocument False # plan_p1 imgs @ [EndDocument])"
    by auto
  have "good writer_call PDF_LIMIT_p1 (None, r)"
    using good_build_pdf_p1 [of env imgs] assms by simp
  then have "length (concat (buffers r)) \<le> PDF_LIMIT_p1" by (simp add: good_def)
  with b show ?thesis by simp
qed

text \<open>The two ways \<^verbatim>\<open>/convert\<close> of \<^verbatim>\<open>part_001\<close> ends on a session with images.\<close>

lemma convert_p1_failed:
  assumes "images_p1 s \<noteq> []" and "build_pdf_p1 env (images_p1 s) = (Some e, r)"
  shows "convert_p1 env s = (s, SendReply CreatingPdf # trace r @ [Uncaught e])"
    and "SendDocument d \<notin> set (snd (convert_p1 env s))"
proof -
  show c: "convert_p1 env s = (s, SendReply CreatingPdf # trace r @ [Uncaught e])"
    using assms by (simp add: convert_p1_def)
  have "list_all writer_call (trace r)"
    using good_build_pdf_p1 [of env "images_p1 s"] assms(2) by (simp add: good_def)
  then have "SendDocument d \<notin> set (trace r)" by (rule no_document_in_trace) simp
  with c show "SendDocument d \<notin> set (snd (convert_p1 env s))" by simp
qed

lemma convert_p1_built:
  assumes "images_p1 s \<noteq> []" and "build_pdf_p1 env (images_p1 s) = (None, r)"
  shows "convert_p1 env s =
           (if replyWithDocument env (concat (buffers r))
            then (s\<lparr>images_p1 := []\<rparr>,
                  SendReply CreatingPdf # trace r @ [SendDocument (concat (buffers r))])
            else (s, SendReply CreatingPdf # trace r @
                       [LogError SendFailed, SendReply (PdfFailed SendFailed)]))"
    and "SendDocument d \<in> set (snd (convert_p1 env s)) \<longleftrightarrow>
           replyWithDocument env (concat (buffers r)) \<and> d = concat (buffers r)"
proof -
  show c: "convert_p1 env s =
           (if replyWithDocument env (concat (buffers r))
            then (s\<lparr>images_p1 := []\<rparr>,
                  SendReply CreatingPdf # trace r @ [SendDocument (concat (buffers r))])
            else (s, SendReply CreatingPdf # trace r @
                       [LogError SendFailed, SendReply (PdfFailed SendFailed)]))"
    using assms by (simp add: convert_p1_def Let_def)
  have "list_all writer_call (trace r)"
    using good_build_pdf_p1 [of env "images_p1 s"] assms(2) by (simp add: good_def)
  then have "SendDocument d \<notin> set (trace r)" by (rule no_document_in_trace) simp
  with c show "SendDocument d \<in> set (snd (convert_p1 env s)) \<longleftrightarrow>
           replyWithDocument env (concat (buffers r)) \<and> d = concat (buffers r)"
    by auto
qed

lemma convert_p1_sent_size:
  assumes "SendDocument d \<in> set (snd (convert_p1 env s))"
  shows "length d \<le> PDF_LIMIT_p1 \<and> fst (convert_p1 env s) = s\<lparr>images_p1 := []\<rparr>
     \<and> images_p1 s \<noteq> []"
proof -
  have ne: "images_p1 s \<noteq> []"
    using assms by (auto simp: convert_p1_def)
  obtain fo r where b: "build_pdf_p1 env (images_p1 s) = (fo, r)"
    by (cases "build_pdf_p1 env (images_p1 s)")
  have fo: "fo = None"
  proof (cases fo)
    case (Some e)
    with convert_p1_failed(2) [where s = s and env = env and e = e and r = r and d = d, OF ne] b assms show ?thesis by simp
  qed simp
  with convert_p1_built(1) [where s = s and env = env and r = r, OF ne]
    convert_p1_built(2) [where s = s and env = env and r = r and d = d, OF ne] b assms
  have sent: "replyWithDocument env (concat (buffers r))" "d = concat (buffers r)"
    and c: "fst (convert_p1 env s) = s\<lparr>images_p1 := []\<rparr>"
    by simp_all
  have "good writer_call PDF_LIMIT_p1 (None, r)"
    using good_build_pdf_p1 [of env "images_p1 s"] b fo by simp
  then have "length (concat (buffers r)) \<le> PDF_LIMIT_p1"
    by (simp add: good_def)
  with sent c ne show ?thesis by simp
qed



section \<open>Builds in the sample environments\<close>

lemma flood_build:
  "build_pdf env_flood [[7]] =
     (Some SizeLimitExceeded,
      \<lparr>trace = [PdfOp (NewDocument True), CallSharp [7],
                PdfOp (Image [7] (FitCentered 500 700))],
       buffers = [[1], replicate MAX_PDF_SIZE 0],
       totalSize = MAX_PDF_SIZE + 1\<rparr>)"
  by (simp add: build_pdf_def pdf_call_def env_flood_def env_ok_def MAX_PDF_SIZE_def)

lemma ok_build:
  "build_pdf env_ok [[7]] =
     (None,
      \<lparr>trace = [PdfOp (NewDocument True), CallSharp [7],
                PdfOp (Image [7] (FitCentered 500 700)), PdfOp EndDocument],
       buffers = [[1], [2], [3]],
       totalSize = 3\<rparr>)"
  by (simp add: build_pdf_def pdf_call_def env_ok_def MAX_PDF_SIZE_def)

lemma flood_convert:
  "convert env_flood \<lparr>images = [[7]], lastActive = 1\<rparr> =
       (\<lparr>images = [[7]], lastActive = 1\<rparr>,
        [SendReply CreatingPdf, PdfOp (NewDocument True), CallSharp [7],
         PdfOp (Image [7] (FitCentered 500 700)),
         LogError SizeLimitExceeded, SendReply (PdfFailed SizeLimitExceeded)])"
  using flood_build by (simp add: convert_def)

lemma ok_convert:
  "convert env_ok \<lparr>images = [[7]], lastActive = t\<rparr> =
       (\<lparr>images = [], lastActive = t\<rparr>,
        [SendReply CreatingPdf, PdfOp (NewDocument True), CallSharp [7],
         PdfOp (Image [7] (FitCentered 500 700)), PdfOp EndDocument,
         SendDocument [1, 2, 3]])"
  using ok_build by (simp add: convert_def env_ok_def)


lemma ok_build_p1:
  "build_pdf_p1 env_ok [\<lparr>buffer = [7], width = 640, height = 480\<rparr>] =
     (None,
      \<lparr>trace = [PdfOp (NewDocument False), PdfOp (AddPage (Some (480, 360))),
                PdfOp (Image [7] (AtOrigin 480 360)), PdfOp EndDocument],
       buffers = [[1], [2], [3], [4]],
       totalSize = 4\<rparr>)"
  by (simp add: build_pdf_p1_def pdf_buffered_def env_ok_def page_size_p1_def PDF_LIMIT_p1_def)

lemma ok_convert_p1:
  "convert_p1 env_ok
        \<lparr>images_p1 = [\<lparr>buffer = [7], width = 640, height = 480\<rparr>], timestamp = None\<rparr> =
       (\<lparr>images_p1 = [], timestamp = None\<rparr>,
        [SendReply CreatingPdf, PdfOp (NewDocument False), PdfOp (AddPage (Some (480, 360))),
         PdfOp (Image [7] (AtOrigin 480 360)), PdfOp EndDocument,
         SendDocument [1, 2, 3, 4]])"
  using ok_build_p1 by (simp add: convert_p1_def env_ok_def)


lemma length_jpeg16: "length jpeg16 = 16777216"
  by (simp add: jpeg16_def)

lemma jpeg_convert:
  "convert env_jpeg \<lparr>images = [jpeg16, jpeg16, jpeg16, jpeg16], lastActive = 1\<rparr> =
     (\<lparr>images = [jpeg16, jpeg16, jpeg16, jpeg16], lastActive = 1\<rparr>,
      [SendReply CreatingPdf, PdfOp (NewDocument True),
       CallSharp jpeg16, PdfOp (Image jpeg16 (FitCentered 500 700)), PdfOp (AddPage None),
       CallSharp jpeg16, PdfOp (Image jpeg16 (FitCentered 500 700)), PdfOp (AddPage None),
       CallSharp jpeg16, PdfOp (Image jpeg16 (FitCentered 500 700)), PdfOp (AddPage None),
       CallSharp jpeg16, PdfOp (Image jpeg16 (FitCentered 500 700)),
       LogError SizeLimitExceeded, SendReply (PdfFailed SizeLimitExceeded)])"
  by (simp add: convert_def build_pdf_def pdf_call_def env_jpeg_def env_ok_def
      MAX_PDF_SIZE_def length_jpeg16)

lemma jpeg_convert_p1:
  "convert_p1 env_jpeg
     \<lparr>images_p1 = [\<lparr>buffer = jpeg16, width = 640, height = 480\<rparr>,
                   \<lparr>buffer = jpeg16, width = 640, height = 480\<rparr>,
                   \<lparr>buffer = jpeg16, width = 640, height = 480\<rparr>], timestamp = None\<rparr> =
     (\<lparr>images_p1 = [\<lparr>buffer = jpeg16, width = 640, height = 480\<rparr>,
                    \<lparr>buffer = jpeg16, width = 640, height = 480\<rparr>,
                    \<lparr>buffer = jpeg16, width = 640, height = 480\<rparr>], timestamp = None\<rparr>,
      [SendReply CreatingPdf, PdfOp (NewDocument False),
       PdfOp (AddPage (Some (480, 360))), PdfOp (Image jpeg16 (AtOrigin 480 360)),
       PdfOp (AddPage (Some (480, 360))), PdfOp (Image jpeg16 (AtOrigin 480 360)),
       PdfOp (AddPage (Some (480, 360))), PdfOp (Image jpeg16 (AtOrigin 480 360)),
       PdfOp EndDocument, Uncaught SizeLimitExceeded])"
  by (simp add: convert_p1_def build_pdf_p1_def pdf_buffered_def env_jpeg_def env_ok_def
      page_size_p1_def PDF_LIMIT_p1_def length_jpeg16)


lemma ok_written:
  "written env_ok [] (NewDocument True # plan [[7]] @ [EndDocument]) = [[1], [2], [3]]"
  "written env_undelivered [] (NewDocument True # plan [[7]] @ [EndDocument]) = [[1], [2], [3]]"
  "written env_unreadable [] (NewDocument True # plan [[7]] @ [EndDocument]) = [[1], [2], [3]]"
  "written env_ok []
     (NewDocument False # plan_p1 (images_p1
        \<lparr>images_p1 = [\<lparr>buffer = [7], width = 640, height = 480\<rparr>], timestamp = None\<rparr>)
       @ [EndDocument])
     = [[1], [2], [3], [4]]"
  "written env_undelivered []
     (NewDocument False # plan_p1 (images_p1
        \<lparr>images_p1 = [\<lparr>buffer = [7], width = 640, height = 480\<rparr>], timestamp = None\<rparr>)
       @ [EndDocument])
     = [[1], [2], [3], [4]]"
  "written env_unreadable []
     (NewDocument False # plan_p1 (images_p1
        \<lparr>images_p1 = [\<lparr>buffer = [7], width = 640, height = 480\<rparr>], timestamp = None\<rparr>)
       @ [EndDocument])
     = [[1], [2], [3], [4]]"
  "written env_jpeg []
     (NewDocument False # plan_p1 (images_p1
        \<lparr>images_p1 = [\<lparr>buffer = [7], width = 640, height = 480\<rparr>], timestamp = None\<rparr>)
       @ [EndDocument])
     = [[1], [1], [7], [1]]"
  by (simp_all add: env_ok_def env_undelivered_def env_unreadable_def env_jpeg_def)

lemma sample_sharp:
  "sharp_toBuffer env_ok b = Some b"
  "sharp_toBuffer env_undelivered b = Some b"
  "sharp_toBuffer env_jpeg b = Some b"
  "sharp_toBuffer env_unreadable b = None"
  by (simp_all add: env_ok_def env_undelivered_def env_jpeg_def env_unreadable_def)

lemma sample_delivery:
  "replyWithDocument env_ok d"
  "\<not> replyWithDocument env_undelivered d"
  by (simp_all add: env_ok_def env_undelivered_def)

lemma undelivered_convert:
  "convert env_undelivered \<lparr>images = [[7]], lastActive = 1\<rparr> =
       (\<lparr>images = [[7]], lastActive = 1\<rparr>,
        [SendReply CreatingPdf, PdfOp (NewDocument True), CallSharp [7],
         PdfOp (Image [7] (FitCentered 500 700)), PdfOp EndDocument,
         LogError SendFailed, SendReply (PdfFailed SendFailed)])"
  by (simp add: convert_def build_pdf_def pdf_call_def env_undelivered_def env_ok_def
      MAX_PDF_SIZE_def)

lemma undelivered_convert_p1:
  "convert_p1 env_undelivered
        \<lparr>images_p1 = [\<lparr>buffer = [7], width = 640, height = 480\<rparr>], timestamp = None\<rparr> =
       (\<lparr>images_p1 = [\<lparr>buffer = [7], width = 640, height = 480\<rparr>], timestamp = None\<rparr>,
        [SendReply CreatingPdf, PdfOp (NewDocument False), PdfOp (AddPage (Some (480, 360))),
         PdfOp (Image [7] (AtOrigin 480 360)), PdfOp EndDocument,
         LogError SendFailed, SendReply (PdfFailed SendFailed)])"
  by (simp add: convert_p1_def build_pdf_p1_def pdf_buffered_def env_undelivered_def env_ok_def
      page_size_p1_def PDF_LIMIT_p1_def)

lemma unreadable_convert:
  "convert env_unreadable \<lparr>images = [[7]], lastActive = 1\<rparr> =
       (\<lparr>images = [[7]], lastActive = 1\<rparr>,
        [SendReply CreatingPdf, PdfOp (NewDocument True), CallSharp [7],
         LogError DecodeFailed, SendReply (PdfFailed DecodeFailed)])"
  by (simp add: convert_def build_pdf_def pdf_call_def env_unreadable_def env_ok_def
      MAX_PDF_SIZE_def)

lemma jpeg_written:
  "(MAX_PDF_SIZE < length (concat (written env_jpeg []
       (NewDocument True # plan [jpeg16, jpeg16, jpeg16, jpeg16] @ [EndDocument])))) = True"
  "(length (concat (written env_jpeg []
       (NewDocument True # plan [jpeg16, jpeg16, jpeg16, jpeg16] @ [EndDocument])))
     \<le> MAX_PDF_SIZE) = False"
  by (simp_all add: env_jpeg_def env_ok_def MAX_PDF_SIZE_def length_jpeg16)

section \<open>The size ceiling\<close>

text \<open>
  In \<^verbatim>\<open>index.js\<close> the ceiling works as intended. The bytes the listener has pushed are the
  chunks of the calls made, in order (all of them, unless the build ended on the size
  error), and the running total is their length. The build ends above the limit exactly
  when it ended on the size error; it then stopped at the first chunk that crossed the
  limit, the last thing done is a call on the writer, and \<^verbatim>\<open>/convert\<close> only reports the
  error and leaves the session as it was. When sharp reads every stored image and the
  chunks of all the calls together are longer than the limit, the build does end on the
  size error. A document that is sent consists of all the chunks of all the calls and is
  at most as long as the limit.
\<close>

lemma size_ceiling_index:
  "(build_pdf env (images s) = (fo, r) \<and> images s \<noteq> [] \<longrightarrow>
      (\<exists>cs. written env [] (ops_of (trace r)) = buffers r @ cs
          \<and> (fo \<noteq> Some SizeLimitExceeded \<longrightarrow> cs = []))
    \<and> totalSize r = length (concat (buffers r))
    \<and> (MAX_PDF_SIZE < totalSize r \<longleftrightarrow> fo = Some SizeLimitExceeded)
    \<and> (fo = Some SizeLimitExceeded \<longrightarrow>
          buffers r \<noteq> []
        \<and> totalSize r - length (last (buffers r)) \<le> MAX_PDF_SIZE
        \<and> (\<exists>t x. trace r = t @ [PdfOp x])
        \<and> convert env s =
            (s, SendReply CreatingPdf # trace r @
                  [LogError SizeLimitExceeded, SendReply (PdfFailed SizeLimitExceeded)])
        \<and> (\<forall>d. SendDocument d \<notin> set (snd (convert env s)))))
   \<and> (map (sharp_toBuffer env) (images s) = map Some ds
        \<and> MAX_PDF_SIZE
             < length (concat (written env [] (NewDocument True # plan ds @ [EndDocument])))
        \<longrightarrow> (\<exists>r'. build_pdf env (images s) = (Some SizeLimitExceeded, r')))
   \<and> (SendDocument d \<in> set (snd (convert env s)) \<longrightarrow>
        length d \<le> MAX_PDF_SIZE
      \<and> (\<exists>ds'. map (sharp_toBuffer env) (images s) = map Some ds'
            \<and> d = concat (written env [] (NewDocument True # plan ds' @ [EndDocument]))))"
proof -
  have a: "build_pdf env (images s) = (fo, r) \<and> images s \<noteq> [] \<longrightarrow>
      (\<exists>cs. written env [] (ops_of (trace r)) = buffers r @ cs
          \<and> (fo \<noteq> Some SizeLimitExceeded \<longrightarrow> cs = []))
    \<and> totalSize r = length (concat (buffers r))
    \<and> (MAX_PDF_SIZE < totalSize r \<longleftrightarrow> fo = Some SizeLimitExceeded)
    \<and> (fo = Some SizeLimitExceeded \<longrightarrow>
          buffers r \<noteq> []
        \<and> totalSize r - length (last (buffers r)) \<le> MAX_PDF_SIZE
        \<and> (\<exists>t x. trace r = t @ [PdfOp x])
        \<and> convert env s =
            (s, SendReply CreatingPdf # trace r @
                  [LogError SizeLimitExceeded, SendReply (PdfFailed SizeLimitExceeded)])
        \<and> (\<forall>d. SendDocument d \<notin> set (snd (convert env s))))"
  proof (intro impI, elim conjE)
    assume b: "build_pdf env (images s) = (fo, r)" and ne: "images s \<noteq> []"
    have g: "good build_effect MAX_PDF_SIZE (fo, r)"
      using good_build_pdf [of env "images s"] b by simp
    have t: "\<exists>cs. written env [] (ops_of (trace r)) = buffers r @ cs
          \<and> (fo \<noteq> Some SizeLimitExceeded \<longrightarrow> cs = [])"
      using build_tied [OF b] by blast
    show "(\<exists>cs. written env [] (ops_of (trace r)) = buffers r @ cs
          \<and> (fo \<noteq> Some SizeLimitExceeded \<longrightarrow> cs = []))
      \<and> totalSize r = length (concat (buffers r))
      \<and> (MAX_PDF_SIZE < totalSize r \<longleftrightarrow> fo = Some SizeLimitExceeded)
      \<and> (fo = Some SizeLimitExceeded \<longrightarrow>
          buffers r \<noteq> []
        \<and> totalSize r - length (last (buffers r)) \<le> MAX_PDF_SIZE
        \<and> (\<exists>t x. trace r = t @ [PdfOp x])
        \<and> convert env s =
            (s, SendReply CreatingPdf # trace r @
                  [LogError SizeLimitExceeded, SendReply (PdfFailed SizeLimitExceeded)])
        \<and> (\<forall>d. SendDocument d \<notin> set (snd (convert env s))))"
      using t good_facts(1,3,4) [OF g]
        convert_failed [where s = s and env = env and e = SizeLimitExceeded and r = r, OF ne] b
      by blast
  qed
  have c: "length d \<le> MAX_PDF_SIZE
      \<and> (\<exists>ds'. map (sharp_toBuffer env) (images s) = map Some ds'
            \<and> d = concat (written env [] (NewDocument True # plan ds' @ [EndDocument])))"
    if sent: "SendDocument d \<in> set (snd (convert env s))"
  proof -
    have ne: "images s \<noteq> []" and len: "length d \<le> MAX_PDF_SIZE"
      using convert_sent_size [OF sent] by simp_all
    obtain fo' r' where b: "build_pdf env (images s) = (fo', r')"
      by (cases "build_pdf env (images s)")
    have "fo' = None"
    proof (cases fo')
      case (Some e)
      with convert_failed(2) [where s = s and env = env and e = e and r = r' and d = d, OF ne]
        b sent show ?thesis by simp
    qed simp
    with b have b': "build_pdf env (images s) = (None, r')" by simp
    from build_success_bytes [OF b'] obtain ds' where
      "map (sharp_toBuffer env) (images s) = map Some ds'"
      "buffers r' = written env [] (NewDocument True # plan ds' @ [EndDocument])"
      by blast
    moreover have "d = concat (buffers r')"
      using convert_built(2) [where s = s and env = env and r = r' and d = d, OF ne b'] sent
      by simp
    ultimately show ?thesis using len by auto
  qed
  from a build_beyond [of env "images s" ds] c show ?thesis by blast
qed

text \<open>
  C1. In \<^verbatim>\<open>part_001\<close> the ceiling does not work as the claim says. Three stored images
  of 16 MiB each make a document of more than 45 MiB. \<^verbatim>\<open>/convert\<close> of \<^verbatim>\<open>part_001\<close> makes
  every call on the writer, \<^verbatim>\<open>pdfDoc.end()\<close> included, before the listener has counted a
  byte; the listener's exception is then uncaught, and the user gets no reply about
  the size. In \<^verbatim>\<open>index.js\<close>, where the limit is 50 MiB, a fourth such image stops the
  build in the call that draws it, and the user gets the failure reply.
\<close>

theorem size_limit_uncaught_p1:
  "PDF_LIMIT_p1 < length (concat (written env_jpeg []
       (NewDocument False
        # plan_p1 [\<lparr>buffer = jpeg16, width = 640, height = 480\<rparr>,
                   \<lparr>buffer = jpeg16, width = 640, height = 480\<rparr>,
                   \<lparr>buffer = jpeg16, width = 640, height = 480\<rparr>]
        @ [EndDocument])))
   \<and> convert_p1 env_jpeg
       \<lparr>images_p1 = [\<lparr>buffer = jpeg16, width = 640, height = 480\<rparr>,
                     \<lparr>buffer = jpeg16, width = 640, height = 480\<rparr>,
                     \<lparr>buffer = jpeg16, width = 640, height = 480\<rparr>], timestamp = None\<rparr> =
       (\<lparr>images_p1 = [\<lparr>buffer = jpeg16, width = 640, height = 480\<rparr>,
                      \<lparr>buffer = jpeg16, width = 640, height = 480\<rparr>,
                      \<lparr>buffer = jpeg16, width = 640, height = 480\<rparr>], timestamp = None\<rparr>,
        [SendReply CreatingPdf, PdfOp (NewDocument False),
         PdfOp (AddPage (Some (480, 360))), PdfOp (Image jpeg16 (AtOrigin 480 360)),
         PdfOp (AddPage (Some (480, 360))), PdfOp (Image jpeg16 (AtOrigin 480 360)),
         PdfOp (AddPage (Some (480, 360))), PdfOp (Image jpeg16 (AtOrigin 480 360)),
         PdfOp EndDocument, Uncaught SizeLimitExceeded])
   \<and> convert env_jpeg \<lparr>images = [jpeg16, jpeg16, jpeg16, jpeg16], lastActive = 1\<rparr> =
       (\<lparr>images = [jpeg16, jpeg16, jpeg16, jpeg16], lastActive = 1\<rparr>,
        [SendReply CreatingPdf, PdfOp (NewDocument True),
         CallSharp jpeg16, PdfOp (Image jpeg16 (FitCentered 500 700)), PdfOp (AddPage None),
         CallSharp jpeg16, PdfOp (Image jpeg16 (FitCentered 500 700)), PdfOp (AddPage None),
         CallSharp jpeg16, PdfOp (Image jpeg16 (FitCentered 500 700)), PdfOp (AddPage None),
         CallSharp jpeg16, PdfOp (Image jpeg16 (FitCentered 500 700)),
         LogError SizeLimitExceeded, SendReply (PdfFailed SizeLimitExceeded)])"
proof -
  have "PDF_LIMIT_p1 < length (concat (written env_jpeg []
       (NewDocument False
        # plan_p1 [\<lparr>buffer = jpeg16, width = 640, height = 480\<rparr>,
                   \<lparr>buffer = jpeg16, width = 640, height = 480\<rparr>,
                   \<lparr>buffer = jpeg16, width = 640, height = 480\<rparr>]
        @ [EndDocument])))"
    by (simp add: env_jpeg_def env_ok_def page_size_p1_def PDF_LIMIT_p1_def length_jpeg16)
  with jpeg_convert_p1 jpeg_convert show ?thesis by simp
qed


section \<open>When the session is cleared\<close>

lemma last_effect: "last (e # t @ [x]) = x"
  by simp

lemma convert_delivered:
  assumes "images s \<noteq> []"
    and "map (sharp_toBuffer env) (images s) = map Some ds"
    and "length (concat (written env [] (NewDocument True # plan ds @ [EndDocument])))
           \<le> MAX_PDF_SIZE"
    and "replyWithDocument env (concat (written env [] (NewDocument True # plan ds @ [EndDocument])))"
  shows "fst (convert env s) = s\<lparr>images := []\<rparr>
    \<and> last (snd (convert env s))
        = SendDocument (concat (written env [] (NewDocument True # plan ds @ [EndDocument])))"
proof -
  from build_within [OF assms(2,3)] obtain r where
    b: "build_pdf env (images s) = (None, r)"
    and bs: "buffers r = written env [] (NewDocument True # plan ds @ [EndDocument])"
    by blast
  show ?thesis
    using convert_built(1) [OF assms(1) b] bs assms(4) by (simp add: last_effect)
qed

lemma convert_undelivered:
  assumes "images s \<noteq> []"
    and "map (sharp_toBuffer env) (images s) = map Some ds"
    and "length (concat (written env [] (NewDocument True # plan ds @ [EndDocument])))
           \<le> MAX_PDF_SIZE"
    and "\<not> replyWithDocument env
             (concat (written env [] (NewDocument True # plan ds @ [EndDocument])))"
  shows "fst (convert env s) = s
    \<and> last (snd (convert env s)) = SendReply (PdfFailed SendFailed)
    \<and> (\<forall>d. SendDocument d \<notin> set (snd (convert env s)))"
proof -
  from build_within [OF assms(2,3)] obtain r where
    b: "build_pdf env (images s) = (None, r)"
    and bs: "buffers r = written env [] (NewDocument True # plan ds @ [EndDocument])"
    by blast
  have "fst (convert env s) = s
    \<and> last (snd (convert env s)) = SendReply (PdfFailed SendFailed)"
    using convert_built(1) [OF assms(1) b] bs assms(4) by simp
  moreover have "\<forall>d. SendDocument d \<notin> set (snd (convert env s))"
    using convert_built(2) [OF assms(1) b] bs assms(4) by simp
  ultimately show ?thesis by blast
qed

lemma convert_too_large:
  assumes "images s \<noteq> []"
    and "map (sharp_toBuffer env) (images s) = map Some ds"
    and "MAX_PDF_SIZE
           < length (concat (written env [] (NewDocument True # plan ds @ [EndDocument])))"
  shows "fst (convert env s) = s
    \<and> last (snd (convert env s)) = SendReply (PdfFailed SizeLimitExceeded)
    \<and> (\<forall>d. SendDocument d \<notin> set (snd (convert env s)))"
proof -
  from build_beyond [OF assms(2,3)] obtain r where
    b: "build_pdf env (images s) = (Some SizeLimitExceeded, r)" by blast
  show ?thesis
    using convert_failed [OF assms(1) b] by simp
qed

lemma convert_undecodable:
  assumes "b \<in> set (images s)" and "sharp_toBuffer env b = None"
  shows "fst (convert env s) = s
    \<and> (\<exists>e. last (snd (convert env s)) = SendReply (PdfFailed e))
    \<and> (\<forall>d. SendDocument d \<notin> set (snd (convert env s)))"
proof -
  have ne: "images s \<noteq> []" using assms(1) by auto
  from build_undecodable [OF assms] obtain e r where
    bd: "build_pdf env (images s) = (Some e, r)" by blast
  show ?thesis
    using convert_failed [OF ne bd] by simp
qed

lemma convert_p1_delivery:
  assumes "images_p1 s \<noteq> []"
    and "length (concat (written env []
            (NewDocument False # plan_p1 (images_p1 s) @ [EndDocument]))) \<le> PDF_LIMIT_p1"
  shows "(replyWithDocument env (concat (written env []
            (NewDocument False # plan_p1 (images_p1 s) @ [EndDocument]))) \<longrightarrow>
        fst (convert_p1 env s) = s\<lparr>images_p1 := []\<rparr>
      \<and> last (snd (convert_p1 env s)) = SendDocument (concat (written env []
            (NewDocument False # plan_p1 (images_p1 s) @ [EndDocument]))))
    \<and> (\<not> replyWithDocument env (concat (written env []
            (NewDocument False # plan_p1 (images_p1 s) @ [EndDocument]))) \<longrightarrow>
        fst (convert_p1 env s) = s
      \<and> last (snd (convert_p1 env s)) = SendReply (PdfFailed SendFailed)
      \<and> (\<forall>d. SendDocument d \<notin> set (snd (convert_p1 env s))))"
proof -
  from build_p1_within [OF assms(2)] obtain r where
    b: "build_pdf_p1 env (images_p1 s) = (None, r)"
    and bs: "buffers r = written env []
               (NewDocument False # plan_p1 (images_p1 s) @ [EndDocument])"
    by blast
  let ?D = "concat (written env [] (NewDocument False # plan_p1 (images_p1 s) @ [EndDocument]))"
  show ?thesis
  proof (cases "replyWithDocument env ?D")
    case True
    then show ?thesis
      using convert_p1_built(1) [OF assms(1) b] bs by (simp add: last_effect)
  next
    case False
    have "fst (convert_p1 env s) = s
      \<and> last (snd (convert_p1 env s)) = SendReply (PdfFailed SendFailed)"
      using convert_p1_built(1) [OF assms(1) b] bs False by simp
    moreover have "\<forall>d. SendDocument d \<notin> set (snd (convert_p1 env s))"
      using convert_p1_built(2) [OF assms(1) b] bs False by simp
    ultimately show ?thesis using False by blast
  qed
qed

text \<open>
  C2, as the handlers have it. \<^verbatim>\<open>/convert\<close> on a session with images empties the image
  list only after the document was built within the size limit and its delivery
  succeeded; the last effect is then the document, made of all the chunks of all the
  calls on the writer. In \<^verbatim>\<open>index.js\<close>, when the delivery fails, when these chunks are
  longer than the limit, or when sharp fails on a stored image, no document is sent, the
  last effect is the failure reply, and the session is returned as it was, so the images
  are still there for another \<^verbatim>\<open>/convert\<close>. In \<^verbatim>\<open>part_001\<close> the same holds for a document
  within the limit: delivered, the images are cleared; not delivered, they are kept and
  the failure reply is sent.
\<close>

theorem images_cleared_only_when_sent:
  "(images s \<noteq> [] \<and> map (sharp_toBuffer env) (images s) = map Some ds \<longrightarrow>
      (length (concat (written env [] (NewDocument True # plan ds @ [EndDocument])))
           \<le> MAX_PDF_SIZE
        \<and> replyWithDocument env
            (concat (written env [] (NewDocument True # plan ds @ [EndDocument]))) \<longrightarrow>
          fst (convert env s) = s\<lparr>images := []\<rparr>
        \<and> last (snd (convert env s))
            = SendDocument (concat (written env [] (NewDocument True # plan ds @ [EndDocument]))))
    \<and> (length (concat (written env [] (NewDocument True # plan ds @ [EndDocument])))
           \<le> MAX_PDF_SIZE
        \<and> \<not> replyWithDocument env
              (concat (written env [] (NewDocument True # plan ds @ [EndDocument]))) \<longrightarrow>
          fst (convert env s) = s
        \<and> last (snd (convert env s)) = SendReply (PdfFailed SendFailed)
        \<and> (\<forall>d. SendDocument d \<notin> set (snd (convert env s))))
    \<and> (MAX_PDF_SIZE
           < length (concat (written env [] (NewDocument True # plan ds @ [EndDocument]))) \<longrightarrow>
          fst (convert env s) = s
        \<and> last (snd (convert env s)) = SendReply (PdfFailed SizeLimitExceeded)
        \<and> (\<forall>d. SendDocument d \<notin> set (snd (convert env s)))))
   \<and> (b \<in> set (images s) \<and> sharp_toBuffer env b = None \<longrightarrow>
          fst (convert env s) = s
        \<and> (\<exists>e. last (snd (convert env s)) = SendReply (PdfFailed e))
        \<and> (\<forall>d. SendDocument d \<notin> set (snd (convert env s))))
   \<and> (images_p1 s1 \<noteq> []
        \<and> length (concat (written env []
             (NewDocument False # plan_p1 (images_p1 s1) @ [EndDocument]))) \<le> PDF_LIMIT_p1 \<longrightarrow>
      (replyWithDocument env (concat (written env []
            (NewDocument False # plan_p1 (images_p1 s1) @ [EndDocument]))) \<longrightarrow>
        fst (convert_p1 env s1) = s1\<lparr>images_p1 := []\<rparr>
      \<and> last (snd (convert_p1 env s1)) = SendDocument (concat (written env []
            (NewDocument False # plan_p1 (images_p1 s1) @ [EndDocument]))))
    \<and> (\<not> replyWithDocument env (concat (written env []
            (NewDocument False # plan_p1 (images_p1 s1) @ [EndDocument]))) \<longrightarrow>
        fst (convert_p1 env s1) = s1
      \<and> last (snd (convert_p1 env s1)) = SendReply (PdfFailed SendFailed)
      \<and> (\<forall>d. SendDocument d \<notin> set (snd (convert_p1 env s1)))))"
  using convert_delivered [of s env ds] convert_undelivered [of s env ds]
    convert_too_large [of s env ds] convert_undecodable [of b s env]
    convert_p1_delivery [of s1 env]
  by blast


theorem images_cleared_only_when_sent_witness:
  "images \<lparr>images = [[7]], lastActive = 1\<rparr> \<noteq> []
   \<and> map (sharp_toBuffer env_ok) (images \<lparr>images = [[7]], lastActive = 1\<rparr>) = map Some [[7]]
   \<and> replyWithDocument env_ok
        (concat (written env_ok [] (NewDocument True # plan [[7]] @ [EndDocument])))
   \<and> fst (convert env_ok \<lparr>images = [[7]], lastActive = 1\<rparr>) = \<lparr>images = [], lastActive = 1\<rparr>
   \<and> last (snd (convert env_ok \<lparr>images = [[7]], lastActive = 1\<rparr>)) = SendDocument [1, 2, 3]
   \<and> \<not> replyWithDocument env_undelivered
          (concat (written env_undelivered [] (NewDocument True # plan [[7]] @ [EndDocument])))
   \<and> fst (convert env_undelivered \<lparr>images = [[7]], lastActive = 1\<rparr>)
        = \<lparr>images = [[7]], lastActive = 1\<rparr>
   \<and> last (snd (convert env_undelivered \<lparr>images = [[7]], lastActive = 1\<rparr>))
        = SendReply (PdfFailed SendFailed)
   \<and> MAX_PDF_SIZE < length (concat (written env_jpeg []
        (NewDocument True # plan [jpeg16, jpeg16, jpeg16, jpeg16] @ [EndDocument])))
   \<and> fst (convert env_jpeg \<lparr>images = [jpeg16, jpeg16, jpeg16, jpeg16], lastActive = 1\<rparr>)
        = \<lparr>images = [jpeg16, jpeg16, jpeg16, jpeg16], lastActive = 1\<rparr>
   \<and> last (snd (convert env_jpeg \<lparr>images = [jpeg16, jpeg16, jpeg16, jpeg16], lastActive = 1\<rparr>))
        = SendReply (PdfFailed SizeLimitExceeded)
   \<and> sharp_toBuffer env_unreadable [7] = None
   \<and> fst (convert env_unreadable \<lparr>images = [[7]], lastActive = 1\<rparr>)
        = \<lparr>images = [[7]], lastActive = 1\<rparr>
   \<and> last (snd (convert env_unreadable \<lparr>images = [[7]], lastActive = 1\<rparr>))
        = SendReply (PdfFailed DecodeFailed)
   \<and> fst (convert_p1 env_ok
          \<lparr>images_p1 = [\<lparr>buffer = [7], width = 640, height = 480\<rparr>], timestamp = None\<rparr>)
        = \<lparr>images_p1 = [], timestamp = None\<rparr>
   \<and> fst (convert_p1 env_undelivered
          \<lparr>images_p1 = [\<lparr>buffer = [7], width = 640, height = 480\<rparr>], timestamp = None\<rparr>)
        = \<lparr>images_p1 = [\<lparr>buffer = [7], width = 640, height = 480\<rparr>], timestamp = None\<rparr>
   \<and> last (snd (convert_p1 env_undelivered
          \<lparr>images_p1 = [\<lparr>buffer = [7], width = 640, height = 480\<rparr>], timestamp = None\<rparr>))
        = SendReply (PdfFailed SendFailed)"
  using
    images_cleared_only_when_sent [of "\<lparr>images = [[7]], lastActive = 1\<rparr>" env_ok "[[7]]" "[7]"
      "\<lparr>images_p1 = [\<lparr>buffer = [7], width = 640, height = 480\<rparr>], timestamp = None\<rparr>"]
    images_cleared_only_when_sent [of "\<lparr>images = [[7]], lastActive = 1\<rparr>" env_undelivered
      "[[7]]" "[7]"
      "\<lparr>images_p1 = [\<lparr>buffer = [7], width = 640, height = 480\<rparr>], timestamp = None\<rparr>"]
    images_cleared_only_when_sent [of
      "\<lparr>images = [jpeg16, jpeg16, jpeg16, jpeg16], lastActive = 1\<rparr>" env_jpeg
      "[jpeg16, jpeg16, jpeg16, jpeg16]" "[7]"
      "\<lparr>images_p1 = [\<lparr>buffer = [7], width = 640, height = 480\<rparr>], timestamp = None\<rparr>"]
    images_cleared_only_when_sent [of "\<lparr>images = [[7]], lastActive = 1\<rparr>" env_unreadable
      "[[7]]" "[7]"
      "\<lparr>images_p1 = [\<lparr>buffer = [7], width = 640, height = 480\<rparr>], timestamp = None\<rparr>"]
  unfolding ok_written jpeg_written
  by (simp add: sample_sharp sample_delivery ok_convert ok_convert_p1
      undelivered_convert undelivered_convert_p1 unreadable_convert jpeg_convert
      MAX_PDF_SIZE_def PDF_LIMIT_p1_def)

text \<open>
  In \<^verbatim>\<open>index.js\<close>, a session of four images whose document crosses the size limit: after
  \<^verbatim>\<open>/convert\<close> has failed the four images are still in the session. And in both files a
  session whose document could not be delivered still holds its image.
\<close>

theorem drained_on_failure_counterexample:
  "convert env_jpeg \<lparr>images = [jpeg16, jpeg16, jpeg16, jpeg16], lastActive = 1\<rparr> =
       (\<lparr>images = [jpeg16, jpeg16, jpeg16, jpeg16], lastActive = 1\<rparr>,
        [SendReply CreatingPdf, PdfOp (NewDocument True),
         CallSharp jpeg16, PdfOp (Image jpeg16 (FitCentered 500 700)), PdfOp (AddPage None),
         CallSharp jpeg16, PdfOp (Image jpeg16 (FitCentered 500 700)), PdfOp (AddPage None),
         CallSharp jpeg16, PdfOp (Image jpeg16 (FitCentered 500 700)), PdfOp (AddPage None),
         CallSharp jpeg16, PdfOp (Image jpeg16 (FitCentered 500 700)),
         LogError SizeLimitExceeded, SendReply (PdfFailed SizeLimitExceeded)])
   \<and> images (fst (convert env_jpeg
         \<lparr>images = [jpeg16, jpeg16, jpeg16, jpeg16], lastActive = 1\<rparr>)) \<noteq> []
   \<and> images (fst (convert env_undelivered \<lparr>images = [[7]], lastActive = 1\<rparr>)) = [[7]]
   \<and> images_p1 (fst (convert_p1 env_undelivered
          \<lparr>images_p1 = [\<lparr>buffer = [7], width = 640, height = 480\<rparr>], timestamp = None\<rparr>))
        = [\<lparr>buffer = [7], width = 640, height = 480\<rparr>]"
  by (simp add: jpeg_convert undelivered_convert undelivered_convert_p1)


section \<open>After a successful conversion\<close>

lemma on_convert_eq:
  "on_convert env now userId us =
     (case convert env (case us userId of
                          None \<Rightarrow> \<lparr>images = [], lastActive = now\<rparr>
                        | Some s \<Rightarrow> s\<lparr>lastActive := now\<rparr>) of
        (s', effs) \<Rightarrow> ((middleware now userId us)(userId \<mapsto> s'), effs))"
  by (cases "us userId") (simp_all add: on_convert_def middleware_def)


text \<open>
  C5. When \<^verbatim>\<open>/convert\<close> has sent a document, the session it leaves has no images, however
  many it had, and \<^verbatim>\<open>/convert\<close> on that session only replies that there is nothing to
  convert. The same holds for two \<^verbatim>\<open>/convert\<close> updates of one user run through the
  middleware of \<^verbatim>\<open>index.js\<close>.
\<close>

theorem cleared_after_success:
  "(SendDocument d \<in> set (snd (convert env s)) \<longrightarrow>
      images (fst (convert env s)) = []
    \<and> convert env' (fst (convert env s)) = (fst (convert env s), [SendReply NoImagesToConvert]))
   \<and> (SendDocument d \<in> set (snd (on_convert env now userId us)) \<longrightarrow>
      (\<exists>s'. fst (on_convert env now userId us) userId = Some s' \<and> images s' = [])
    \<and> snd (on_convert env' now' userId (fst (on_convert env now userId us)))
        = [SendReply NoImagesToConvert])"
proof -
  have a: "images (fst (convert env s)) = []
    \<and> convert env' (fst (convert env s)) = (fst (convert env s), [SendReply NoImagesToConvert])"
    if "SendDocument d \<in> set (snd (convert env s))" for s
  proof -
    have c: "fst (convert env s) = s\<lparr>images := []\<rparr>"
      using convert_sent_size [OF that] by simp
    have "convert env' (s\<lparr>images := []\<rparr>) = (s\<lparr>images := []\<rparr>, [SendReply NoImagesToConvert])"
      by (simp add: convert_def)
    with c show ?thesis by simp
  qed
  have b: "(\<exists>s'. fst (on_convert env now userId us) userId = Some s' \<and> images s' = [])
    \<and> snd (on_convert env' now' userId (fst (on_convert env now userId us)))
        = [SendReply NoImagesToConvert]"
    if sent: "SendDocument d \<in> set (snd (on_convert env now userId us))"
  proof -
    define s1 where "s1 = (case us userId of
                          None \<Rightarrow> \<lparr>images = [], lastActive = now\<rparr>
                        | Some s \<Rightarrow> s\<lparr>lastActive := now\<rparr>)"
    have oc: "on_convert env now userId us
        = ((middleware now userId us)(userId \<mapsto> fst (convert env s1)), snd (convert env s1))"
      by (simp add: on_convert_eq s1_def split: prod.splits)
    with sent have "SendDocument d \<in> set (snd (convert env s1))" by simp
    then have e: "images (fst (convert env s1)) = []" using a by blast
    have "fst (on_convert env now userId us) userId = Some (fst (convert env s1))"
      using oc by simp
    moreover have "snd (on_convert env' now' userId (fst (on_convert env now userId us)))
        = [SendReply NoImagesToConvert]"
      using oc e by (simp add: on_convert_eq convert_def)
    ultimately show ?thesis using e by simp
  qed
  from a b show ?thesis by blast
qed

theorem cleared_after_success_witness:
  "SendDocument [1, 2, 3] \<in> set (snd (convert env_ok \<lparr>images = [[7]], lastActive = 1\<rparr>))
   \<and> images (fst (convert env_ok \<lparr>images = [[7]], lastActive = 1\<rparr>)) = []
   \<and> convert env_flood (fst (convert env_ok \<lparr>images = [[7]], lastActive = 1\<rparr>))
        = (\<lparr>images = [], lastActive = 1\<rparr>, [SendReply NoImagesToConvert])
   \<and> SendDocument [1, 2, 3]
        \<in> set (snd (on_convert env_ok 5 4 [4 \<mapsto> \<lparr>images = [[7]], lastActive = 1\<rparr>]))
   \<and> fst (on_convert env_ok 5 4 [4 \<mapsto> \<lparr>images = [[7]], lastActive = 1\<rparr>]) 4
        = Some \<lparr>images = [], lastActive = 5\<rparr>
   \<and> snd (on_convert env_flood 6 4
          (fst (on_convert env_ok 5 4 [4 \<mapsto> \<lparr>images = [[7]], lastActive = 1\<rparr>])))
        = [SendReply NoImagesToConvert]"
  using cleared_after_success [of "[1, 2, 3]" env_ok "\<lparr>images = [[7]], lastActive = 1\<rparr>"
      env_flood 5 4 "[4 \<mapsto> \<lparr>images = [[7]], lastActive = 1\<rparr>]" 6]
  by (simp add: on_convert_eq ok_convert)


section \<open>The pages of the assembled document\<close>

lemma ingest_all_images:
  assumes "length (images s) + length fids \<le> MAX_IMAGES_PER_USER"
    and "map (\<lambda>fid. snd (fetch_and_normalize env fid)) fids = map Inr imgs"
  shows "ingest_all env fids s = s\<lparr>images := images s @ imgs\<rparr>"
  using assms
proof (induction fids arbitrary: s imgs)
  case Nil
  then show ?case by simp
next
  case (Cons fid fids)
  then obtain img rest where imgs: "imgs = img # rest"
    and ok: "snd (fetch_and_normalize env fid) = Inr img"
    and oks: "map (\<lambda>fid. snd (fetch_and_normalize env fid)) fids = map Inr rest"
    by (cases imgs) auto
  have step: "fst (processImage env fid s) = s\<lparr>images := images s @ [img]\<rparr>"
    using Cons.prems(1) ok by (simp add: processImage_session)
  have "ingest_all env fids (s\<lparr>images := images s @ [img]\<rparr>)
          = (s\<lparr>images := images s @ [img]\<rparr>)\<lparr>images := images (s\<lparr>images := images s @ [img]\<rparr>) @ rest\<rparr>"
    using Cons.prems(1) oks by (intro Cons.IH) simp_all
  with step imgs show ?case by simp
qed

lemma ingest_all_p1_images:
  assumes "length (images_p1 s) + length fids \<le> MAX_IMAGES"
    and "map (\<lambda>fid. snd (fetch_and_normalize_p1 env fid)) fids = map Inr imgs"
  shows "ingest_all_p1 env fids s = s\<lparr>images_p1 := images_p1 s @ imgs\<rparr>"
  using assms
proof (induction fids arbitrary: s imgs)
  case Nil
  then show ?case by simp
next
  case (Cons fid fids)
  then obtain img rest where imgs: "imgs = img # rest"
    and ok: "snd (fetch_and_normalize_p1 env fid) = Inr img"
    and oks: "map (\<lambda>fid. snd (fetch_and_normalize_p1 env fid)) fids = map Inr rest"
    by (cases imgs) auto
  have step: "fst (processImage_p1 env fid s) = s\<lparr>images_p1 := images_p1 s @ [img]\<rparr>"
    using Cons.prems(1) ok by (simp add: processImage_p1_session)
  have "ingest_all_p1 env fids (s\<lparr>images_p1 := images_p1 s @ [img]\<rparr>)
          = (s\<lparr>images_p1 := images_p1 s @ [img]\<rparr>)
              \<lparr>images_p1 := images_p1 (s\<lparr>images_p1 := images_p1 s @ [img]\<rparr>) @ rest\<rparr>"
    using Cons.prems(1) oks by (intro Cons.IH) simp_all
  with step imgs show ?case by simp
qed

lemma pages_plan:
  "ds \<noteq> [] \<Longrightarrow>
     foldl pdf_step (ps @ [\<lparr>page_size = None, page_images = []\<rparr>]) (plan ds)
       = ps @ map page_of ds"
proof (induction ds arbitrary: ps)
  case Nil
  then show ?case by simp
next
  case (Cons d rest)
  show ?case
  proof (cases "rest = []")
    case True
    then show ?thesis by (simp add: page_of_def)
  next
    case False
    with Cons.IH [of "ps @ [page_of d]"] show ?thesis by (simp add: page_of_def)
  qed
qed

lemma pages_plan_p1: "foldl pdf_step ps (plan_p1 imgs) = ps @ map page_of_p1 imgs"
  by (induction imgs arbitrary: ps) (simp_all add: page_of_p1_def)

lemma pages_document:
  "ds \<noteq> [] \<Longrightarrow> pdf_pages (NewDocument True # plan ds @ [EndDocument]) = map page_of ds"
  using pages_plan [of ds "[]"] by (simp add: pdf_pages_def)

lemma pages_document_p1:
  "pdf_pages (NewDocument False # plan_p1 imgs @ [EndDocument]) = map page_of_p1 imgs"
  by (simp add: pdf_pages_def pages_plan_p1)

lemma convert_pages:
  assumes "SendDocument d \<in> set (snd (convert env s))"
  shows "\<exists>ds. map (sharp_toBuffer env) (images s) = map Some ds
            \<and> pdf_pages (ops_of (snd (convert env s))) = map page_of ds"
proof -
  have ne: "images s \<noteq> []" using convert_sent_size [OF assms] by simp
  obtain fo r where b: "build_pdf env (images s) = (fo, r)"
    by (cases "build_pdf env (images s)")
  have fo: "fo = None"
  proof (cases fo)
    case (Some e)
    with convert_failed(2) [where s = s and env = env and e = e and r = r and d = d, OF ne]
      b assms show ?thesis by simp
  qed simp
  with b have b': "build_pdf env (images s) = (None, r)" by simp
  from build_ops [OF b'] obtain ds where
    ds: "map (sharp_toBuffer env) (images s) = map Some ds"
    and ops: "ops_of (trace r) = NewDocument True # plan ds @ [EndDocument]"
    by blast
  have "ds \<noteq> []" using ds ne by auto
  have "ops_of (snd (convert env s)) = ops_of (trace r)"
    using convert_built(1) [OF ne b'] by (simp add: ops_of_append)
  with ops pages_document [OF \<open>ds \<noteq> []\<close>] ds show ?thesis by auto
qed

lemma convert_p1_pages:
  assumes "SendDocument d \<in> set (snd (convert_p1 env s))"
  shows "pdf_pages (ops_of (snd (convert_p1 env s))) = map page_of_p1 (images_p1 s)"
proof -
  have ne: "images_p1 s \<noteq> []" using convert_p1_sent_size [OF assms] by simp
  obtain fo r where b: "build_pdf_p1 env (images_p1 s) = (fo, r)"
    by (cases "build_pdf_p1 env (images_p1 s)")
  have fo: "fo = None"
  proof (cases fo)
    case (Some e)
    with convert_p1_failed(2) [where s = s and env = env and e = e and r = r and d = d, OF ne]
      b assms show ?thesis by simp
  qed simp
  with b have b': "build_pdf_p1 env (images_p1 s) = (None, r)" by simp
  have "ops_of (snd (convert_p1 env s)) = ops_of (trace r)"
    using convert_p1_built(1) [OF ne b'] by (simp add: ops_of_append)
  with build_ops_p1 [OF b'] pages_document_p1 show ?thesis by simp
qed

lemma convert_within:
  assumes "images s \<noteq> []"
    and "map (sharp_toBuffer env) (images s) = map Some ds"
    and "length (concat (written env [] (NewDocument True # plan ds @ [EndDocument])))
           \<le> MAX_PDF_SIZE"
    and "replyWithDocument env (concat (written env [] (NewDocument True # plan ds @ [EndDocument])))"
  shows "SendDocument (concat (written env [] (NewDocument True # plan ds @ [EndDocument])))
           \<in> set (snd (convert env s))"
proof -
  from build_within [OF assms(2,3)] obtain r where
    b: "build_pdf env (images s) = (None, r)"
    and bs: "buffers r = written env [] (NewDocument True # plan ds @ [EndDocument])"
    by blast
  show ?thesis
    using convert_built(1) [OF assms(1) b] bs assms(4) by simp
qed

lemma convert_p1_within:
  assumes "images_p1 s \<noteq> []"
    and "length (concat (written env []
            (NewDocument False # plan_p1 (images_p1 s) @ [EndDocument]))) \<le> PDF_LIMIT_p1"
    and "replyWithDocument env (concat (written env []
            (NewDocument False # plan_p1 (images_p1 s) @ [EndDocument])))"
  shows "SendDocument (concat (written env []
            (NewDocument False # plan_p1 (images_p1 s) @ [EndDocument])))
           \<in> set (snd (convert_p1 env s))"
proof -
  from build_p1_within [OF assms(2)] obtain r where
    b: "build_pdf_p1 env (images_p1 s) = (None, r)"
    and bs: "buffers r = written env []
               (NewDocument False # plan_p1 (images_p1 s) @ [EndDocument])"
    by blast
  show ?thesis
    using convert_p1_built(1) [OF assms(1) b] bs assms(3) by simp
qed


text \<open>Three images in the sample environment.\<close>

lemma ok3_ingest:
  "ingest_all env_ok [''a'', ''bb'', ''ccc''] \<lparr>images = [], lastActive = 1\<rparr>
     = \<lparr>images = [[15], [16], [17]], lastActive = 1\<rparr>"
  by (simp add: processImage_def fetch_and_normalize_def env_ok_def MAX_IMAGES_PER_USER_def)

lemma ok3_convert:
  "convert env_ok \<lparr>images = [[15], [16], [17]], lastActive = 1\<rparr> =
     (\<lparr>images = [], lastActive = 1\<rparr>,
      [SendReply CreatingPdf, PdfOp (NewDocument True),
       CallSharp [15], PdfOp (Image [15] (FitCentered 500 700)), PdfOp (AddPage None),
       CallSharp [16], PdfOp (Image [16] (FitCentered 500 700)), PdfOp (AddPage None),
       CallSharp [17], PdfOp (Image [17] (FitCentered 500 700)),
       PdfOp EndDocument, SendDocument [1, 2, 3, 4, 5, 6, 7]])"
  by (simp add: convert_def build_pdf_def pdf_call_def env_ok_def MAX_PDF_SIZE_def)

lemma ok3_ingest_p1:
  "ingest_all_p1 env_ok [''a'', ''bb'', ''ccc''] \<lparr>images_p1 = [], timestamp = None\<rparr>
     = \<lparr>images_p1 = [\<lparr>buffer = [15], width = 640, height = 480\<rparr>,
                     \<lparr>buffer = [16], width = 640, height = 480\<rparr>,
                     \<lparr>buffer = [17], width = 640, height = 480\<rparr>], timestamp = None\<rparr>"
  by (simp add: processImage_p1_def fetch_and_normalize_p1_def env_ok_def MAX_IMAGES_def)


lemma ok3_convert_p1:
  "convert_p1 env_ok
     \<lparr>images_p1 = [\<lparr>buffer = [15], width = 640, height = 480\<rparr>,
                   \<lparr>buffer = [16], width = 640, height = 480\<rparr>,
                   \<lparr>buffer = [17], width = 640, height = 480\<rparr>], timestamp = None\<rparr> =
     (\<lparr>images_p1 = [], timestamp = None\<rparr>,
      [SendReply CreatingPdf, PdfOp (NewDocument False),
       PdfOp (AddPage (Some (480, 360))), PdfOp (Image [15] (AtOrigin 480 360)),
       PdfOp (AddPage (Some (480, 360))), PdfOp (Image [16] (AtOrigin 480 360)),
       PdfOp (AddPage (Some (480, 360))), PdfOp (Image [17] (AtOrigin 480 360)),
       PdfOp EndDocument, SendDocument [1, 2, 3, 4, 5, 6, 7, 8]])"
  by (simp add: convert_p1_def build_pdf_p1_def pdf_buffered_def env_ok_def PDF_LIMIT_p1_def
      page_size_p1_def)


text \<open>
  C4. After \<open>n\<close> images were ingested one after the other into an empty session, each
  with success and \<open>n\<close> at most the maximum, the session holds the \<open>n\<close> normalized images in
  the order of the ingests. Whenever \<^verbatim>\<open>/convert\<close> then sends a document, the writer calls
  it made give exactly \<open>n\<close> pages, the \<open>i\<close>-th page holding the \<open>i\<close>-th stored image and
  nothing else (in \<^verbatim>\<open>index.js\<close> as sharp returned it). And \<^verbatim>\<open>/convert\<close> does send the
  document when there is at least one image, sharp reads every stored image
  (\<^verbatim>\<open>index.js\<close>), the chunks of these writer calls stay within the size limit, and the
  delivery succeeds; with no image it replies as C6 says.
\<close>


theorem pages_follow_ingests:
  "(images s0 = [] \<and> length fids \<le> MAX_IMAGES_PER_USER
      \<and> map (\<lambda>fid. snd (fetch_and_normalize env fid)) fids = map Inr imgs \<longrightarrow>
      images (ingest_all env fids s0) = imgs
    \<and> (SendDocument d \<in> set (snd (convert env' (ingest_all env fids s0))) \<longrightarrow>
         (\<exists>ds. map (sharp_toBuffer env') imgs = map Some ds
             \<and> pdf_pages (ops_of (snd (convert env' (ingest_all env fids s0))))
                 = map page_of ds)
       \<and> length (pdf_pages (ops_of (snd (convert env' (ingest_all env fids s0)))))
           = length fids)
    \<and> (fids \<noteq> [] \<and> map (sharp_toBuffer env') imgs = map Some ds'
         \<and> length (concat (written env' [] (NewDocument True # plan ds' @ [EndDocument])))
             \<le> MAX_PDF_SIZE
         \<and> replyWithDocument env'
              (concat (written env' [] (NewDocument True # plan ds' @ [EndDocument]))) \<longrightarrow>
         SendDocument (concat (written env' [] (NewDocument True # plan ds' @ [EndDocument])))
           \<in> set (snd (convert env' (ingest_all env fids s0)))))
   \<and> (images_p1 s1 = [] \<and> length fids \<le> MAX_IMAGES
      \<and> map (\<lambda>fid. snd (fetch_and_normalize_p1 env fid)) fids = map Inr imgs1 \<longrightarrow>
      images_p1 (ingest_all_p1 env fids s1) = imgs1
    \<and> (SendDocument d \<in> set (snd (convert_p1 env' (ingest_all_p1 env fids s1))) \<longrightarrow>
         pdf_pages (ops_of (snd (convert_p1 env' (ingest_all_p1 env fids s1))))
           = map page_of_p1 imgs1
       \<and> length (pdf_pages (ops_of (snd (convert_p1 env' (ingest_all_p1 env fids s1)))))
           = length fids)
    \<and> (fids \<noteq> []
         \<and> length (concat (written env' [] (NewDocument False # plan_p1 imgs1 @ [EndDocument])))
             \<le> PDF_LIMIT_p1
         \<and> replyWithDocument env'
              (concat (written env' [] (NewDocument False # plan_p1 imgs1 @ [EndDocument]))) \<longrightarrow>
         SendDocument (concat (written env' [] (NewDocument False # plan_p1 imgs1 @ [EndDocument])))
           \<in> set (snd (convert_p1 env' (ingest_all_p1 env fids s1)))))"
proof (intro conjI impI; elim conjE)
  assume e: "images s0 = []" and n: "length fids \<le> MAX_IMAGES_PER_USER"
    and ok: "map (\<lambda>fid. snd (fetch_and_normalize env fid)) fids = map Inr imgs"
  have all: "ingest_all env fids s0 = s0\<lparr>images := imgs\<rparr>"
    using ingest_all_images [of s0 fids env imgs] e n ok by simp
  then show im: "images (ingest_all env fids s0) = imgs" by simp
  have len: "length imgs = length fids"
    using ok by (metis length_map)
  {
    assume sent: "SendDocument d \<in> set (snd (convert env' (ingest_all env fids s0)))"
    from convert_pages [OF sent] im obtain ds where
      ds: "map (sharp_toBuffer env') imgs = map Some ds"
      and pg: "pdf_pages (ops_of (snd (convert env' (ingest_all env fids s0)))) = map page_of ds"
      by auto
    then show "\<exists>ds. map (sharp_toBuffer env') imgs = map Some ds
             \<and> pdf_pages (ops_of (snd (convert env' (ingest_all env fids s0))))
                 = map page_of ds"
      by blast
    have "length ds = length imgs" using ds by (metis length_map)
    with pg len
    show "length (pdf_pages (ops_of (snd (convert env' (ingest_all env fids s0)))))
           = length fids"
      by simp
  }
  {
    assume ne: "fids \<noteq> []" and ds': "map (sharp_toBuffer env') imgs = map Some ds'"
      and w: "length (concat (written env' [] (NewDocument True # plan ds' @ [EndDocument])))
             \<le> MAX_PDF_SIZE"
      and r: "replyWithDocument env'
              (concat (written env' [] (NewDocument True # plan ds' @ [EndDocument])))"
    have "images (ingest_all env fids s0) \<noteq> []" using im len ne by auto
    from convert_within [OF this _ w r] ds' im
    show "SendDocument (concat (written env' [] (NewDocument True # plan ds' @ [EndDocument])))
           \<in> set (snd (convert env' (ingest_all env fids s0)))"
      by simp
  }
next
  assume e: "images_p1 s1 = []" and n: "length fids \<le> MAX_IMAGES"
    and ok: "map (\<lambda>fid. snd (fetch_and_normalize_p1 env fid)) fids = map Inr imgs1"
  have all: "ingest_all_p1 env fids s1 = s1\<lparr>images_p1 := imgs1\<rparr>"
    using ingest_all_p1_images [of s1 fids env imgs1] e n ok by simp
  then show im: "images_p1 (ingest_all_p1 env fids s1) = imgs1" by simp
  have len: "length imgs1 = length fids"
    using ok by (metis length_map)
  {
    assume sent: "SendDocument d \<in> set (snd (convert_p1 env' (ingest_all_p1 env fids s1)))"
    from convert_p1_pages [OF sent] im
    show pg: "pdf_pages (ops_of (snd (convert_p1 env' (ingest_all_p1 env fids s1))))
           = map page_of_p1 imgs1"
      by simp
    with len
    show "length (pdf_pages (ops_of (snd (convert_p1 env' (ingest_all_p1 env fids s1)))))
           = length fids"
      by simp
  }
  {
    assume ne: "fids \<noteq> []"
      and w: "length (concat (written env' [] (NewDocument False # plan_p1 imgs1 @ [EndDocument])))
             \<le> PDF_LIMIT_p1"
      and r: "replyWithDocument env'
              (concat (written env' [] (NewDocument False # plan_p1 imgs1 @ [EndDocument])))"
    have "images_p1 (ingest_all_p1 env fids s1) \<noteq> []" using im len ne by auto
    from convert_p1_within [OF this] w r im
    show "SendDocument (concat (written env' [] (NewDocument False # plan_p1 imgs1 @ [EndDocument])))
           \<in> set (snd (convert_p1 env' (ingest_all_p1 env fids s1)))"
      by simp
  }
qed

theorem pages_follow_ingests_witness:
  "images \<lparr>images = [], lastActive = 1\<rparr> = []
   \<and> length [''a'', ''bb'', ''ccc''] \<le> MAX_IMAGES_PER_USER
   \<and> map (\<lambda>fid. snd (fetch_and_normalize env_ok fid)) [''a'', ''bb'', ''ccc'']
        = map Inr [[15], [16], [17]]
   \<and> images (ingest_all env_ok [''a'', ''bb'', ''ccc''] \<lparr>images = [], lastActive = 1\<rparr>)
        = [[15], [16], [17]]
   \<and> SendDocument [1, 2, 3, 4, 5, 6, 7] \<in> set (snd (convert env_ok
         (ingest_all env_ok [''a'', ''bb'', ''ccc''] \<lparr>images = [], lastActive = 1\<rparr>)))
   \<and> pdf_pages (ops_of (snd (convert env_ok
         (ingest_all env_ok [''a'', ''bb'', ''ccc''] \<lparr>images = [], lastActive = 1\<rparr>))))
        = [page_of [15], page_of [16], page_of [17]]
   \<and> map (\<lambda>fid. snd (fetch_and_normalize_p1 env_ok fid)) [''a'', ''bb'', ''ccc'']
        = map Inr [\<lparr>buffer = [15], width = 640, height = 480\<rparr>,
                   \<lparr>buffer = [16], width = 640, height = 480\<rparr>,
                   \<lparr>buffer = [17], width = 640, height = 480\<rparr>]
   \<and> SendDocument [1, 2, 3, 4, 5, 6, 7, 8] \<in> set (snd (convert_p1 env_ok
         (ingest_all_p1 env_ok [''a'', ''bb'', ''ccc''] \<lparr>images_p1 = [], timestamp = None\<rparr>)))
   \<and> pdf_pages (ops_of (snd (convert_p1 env_ok
         (ingest_all_p1 env_ok [''a'', ''bb'', ''ccc''] \<lparr>images_p1 = [], timestamp = None\<rparr>))))
        = [page_of_p1 \<lparr>buffer = [15], width = 640, height = 480\<rparr>,
           page_of_p1 \<lparr>buffer = [16], width = 640, height = 480\<rparr>,
           page_of_p1 \<lparr>buffer = [17], width = 640, height = 480\<rparr>]
   \<and> length (pdf_pages (ops_of (snd (convert_p1 env_ok
         (ingest_all_p1 env_ok [''a'', ''bb'', ''ccc''] \<lparr>images_p1 = [], timestamp = None\<rparr>)))))
        = 3"
  using
    pages_follow_ingests [where ?s0.0 = "\<lparr>images = [], lastActive = 1\<rparr>"
      and fids = "[''a'', ''bb'', ''ccc'']" and env = env_ok and env' = env_ok
      and imgs = "[[15], [16], [17]]" and d = "[1, 2, 3, 4, 5, 6, 7]"
      and ds' = "[[15], [16], [17]]"
      and ?s1.0 = "\<lparr>images_p1 = [], timestamp = None\<rparr>"
      and ?imgs1.0 = "[\<lparr>buffer = [15], width = 640, height = 480\<rparr>,
                   \<lparr>buffer = [16], width = 640, height = 480\<rparr>,
                   \<lparr>buffer = [17], width = 640, height = 480\<rparr>]"]
    pages_follow_ingests [where ?s0.0 = "\<lparr>images = [], lastActive = 1\<rparr>"
      and fids = "[''a'', ''bb'', ''ccc'']" and env = env_ok and env' = env_ok
      and imgs = "[[15], [16], [17]]" and d = "[1, 2, 3, 4, 5, 6, 7, 8]"
      and ds' = "[[15], [16], [17]]"
      and ?s1.0 = "\<lparr>images_p1 = [], timestamp = None\<rparr>"
      and ?imgs1.0 = "[\<lparr>buffer = [15], width = 640, height = 480\<rparr>,
                   \<lparr>buffer = [16], width = 640, height = 480\<rparr>,
                   \<lparr>buffer = [17], width = 640, height = 480\<rparr>]"]
    ok3_ingest ok3_convert ok3_ingest_p1 ok3_convert_p1
  by (simp add: MAX_IMAGES_PER_USER_def MAX_IMAGES_def fetch_and_normalize_def
      fetch_and_normalize_p1_def pdf_pages_def page_of_def page_of_p1_def page_size_p1_def
      env_ok_def)


section \<open>Stored dimensions and page geometry\<close>

lemma calls_add_images:
  assumes "add_images env imgs r = (None, r')"
  shows "\<exists>t. trace r' = trace r @ t \<and> (\<forall>b \<in> set imgs. CallSharp b \<in> set t)"
  using assms
proof (induction imgs arbitrary: r)
  case Nil
  then show ?case by simp
next
  case (Cons imgBuffer rest)
  let ?rs = "r\<lparr>trace := trace r @ [CallSharp imgBuffer]\<rparr>"
  from Cons.prems obtain d where d: "sharp_toBuffer env imgBuffer = Some d"
    by (cases "sharp_toBuffer env imgBuffer") auto
  obtain fo1 r1 where e1: "pdf_call env MAX_PDF_SIZE (Image d (FitCentered 500 700)) ?rs = (fo1, r1)"
    by (cases "pdf_call env MAX_PDF_SIZE (Image d (FitCentered 500 700)) ?rs")
  with Cons.prems d have fo1: "fo1 = None" by (cases fo1) auto
  obtain fo2 r2 where e2:
    "(if rest \<noteq> [] then pdf_call env MAX_PDF_SIZE (AddPage None) r1 else (None, r1)) = (fo2, r2)"
    by (cases "if rest \<noteq> [] then pdf_call env MAX_PDF_SIZE (AddPage None) r1 else (None, r1)")
  with Cons.prems d e1 fo1 have fo2: "fo2 = None" by (cases fo2) auto
  from Cons.prems d e1 fo1 e2 fo2 have rec: "add_images env rest r2 = (None, r')" by simp
  from Cons.IH [OF rec] obtain t where
    t: "trace r' = trace r2 @ t" and calls: "\<forall>b \<in> set rest. CallSharp b \<in> set t"
    by blast
  have t1: "trace r1 = trace r @ [CallSharp imgBuffer, PdfOp (Image d (FitCentered 500 700))]"
    using trace_call [OF e1] by simp
  have "\<exists>u. trace r2 = trace r1 @ u"
    using e2 by (auto split: if_splits dest: trace_call)
  then obtain u where t2: "trace r2 = trace r1 @ u" by blast
  have "trace r' = trace r
      @ ([CallSharp imgBuffer, PdfOp (Image d (FitCentered 500 700))] @ u @ t)"
    using t t1 t2 by simp
  moreover have "\<forall>b \<in> set (imgBuffer # rest).
      CallSharp b \<in> set ([CallSharp imgBuffer, PdfOp (Image d (FitCentered 500 700))] @ u @ t)"
    using calls by simp
  ultimately show ?case by blast
qed

lemma convert_calls_sharp:
  assumes "SendDocument d \<in> set (snd (convert env s))" and "b \<in> set (images s)"
  shows "CallSharp b \<in> set (snd (convert env s))"
proof -
  have ne: "images s \<noteq> []" using assms(2) by auto
  obtain fo r where bd: "build_pdf env (images s) = (fo, r)"
    by (cases "build_pdf env (images s)")
  have fo: "fo = None"
  proof (cases fo)
    case (Some e)
    with convert_failed(2) [where s = s and env = env and e = e and r = r and d = d, OF ne]
      bd assms(1) show ?thesis by simp
  qed simp
  with bd have b': "build_pdf env (images s) = (None, r)" by simp
  let ?r0 = "\<lparr>trace = [], buffers = [], totalSize = 0\<rparr>"
  obtain fo0 r0 where e0: "pdf_call env MAX_PDF_SIZE (NewDocument True) ?r0 = (fo0, r0)"
    by (cases "pdf_call env MAX_PDF_SIZE (NewDocument True) ?r0")
  with b' have fo0: "fo0 = None" by (cases fo0) (auto simp: build_pdf_def)
  obtain fo1 r1 where e1: "add_images env (images s) r0 = (fo1, r1)"
    by (cases "add_images env (images s) r0")
  with b' e0 fo0 have fo1: "fo1 = None" by (cases fo1) (auto simp: build_pdf_def)
  from b' e0 fo0 e1 fo1 have e2: "pdf_call env MAX_PDF_SIZE EndDocument r1 = (None, r)"
    by (simp add: build_pdf_def)
  from calls_add_images [of env "images s" r0 r1] e1 fo1 assms(2)
  have "CallSharp b \<in> set (trace r1)" by auto
  with trace_call [OF e2] have "CallSharp b \<in> set (trace r)" by simp
  with convert_built(1) [OF ne b'] show ?thesis by simp
qed

lemma convert_p1_no_decode:
  "CallSharp b \<notin> set (snd (convert_p1 env s)) \<and> CallMetadata b \<notin> set (snd (convert_p1 env s))"
proof (cases "images_p1 s = []")
  case True
  then show ?thesis by (simp add: convert_p1_def)
next
  case False
  obtain fo r where bd: "build_pdf_p1 env (images_p1 s) = (fo, r)"
    by (cases "build_pdf_p1 env (images_p1 s)")
  have "list_all writer_call (trace r)"
    using good_build_pdf_p1 [of env "images_p1 s"] bd by (simp add: good_def)
  then have "CallSharp b \<notin> set (trace r) \<and> CallMetadata b \<notin> set (trace r)"
    by (auto simp: list_all_iff)
  with False bd show ?thesis
    by (cases fo) (simp_all add: convert_p1_def Let_def)
qed


text \<open>
  C9, as the two entry points have it. In \<^verbatim>\<open>part_001\<close> every image appended to a session
  carries the width and height that sharp's metadata gave for the normalized bytes;
  \<^verbatim>\<open>/convert\<close> calls neither sharp nor its metadata, and in a document it sends, the page
  of each stored image has the size width \<open>\<times>\<close> 72 / 96 by height \<open>\<times>\<close> 72 / 96 computed
  from the stored numbers, with the image drawn at that size. In \<^verbatim>\<open>index.js\<close> a session
  holds the normalized bytes only; for a document it sends, \<^verbatim>\<open>/convert\<close> has passed every
  stored buffer through sharp again, and each page has the default size with the image
  fitted into 500 by 700 points.
\<close>

theorem stored_dimensions:
  "(images_p1 (fst (processImage_p1 env fid s1)) \<noteq> images_p1 s1 \<longrightarrow>
      (\<exists>img. images_p1 (fst (processImage_p1 env fid s1)) = images_p1 s1 @ [img]
          \<and> sharp_metadata env (buffer img) = Some (width img, height img)))
   \<and> CallSharp b \<notin> set (snd (convert_p1 env s1))
   \<and> CallMetadata b \<notin> set (snd (convert_p1 env s1))
   \<and> (SendDocument d \<in> set (snd (convert_p1 env s1)) \<longrightarrow>
        pdf_pages (ops_of (snd (convert_p1 env s1)))
          = map (\<lambda>img.
              \<lparr>page_size = Some (of_nat (width img) * 72 / 96, of_nat (height img) * 72 / 96),
               page_images =
                 [(buffer img,
                   AtOrigin (of_nat (width img) * 72 / 96) (of_nat (height img) * 72 / 96))]\<rparr>)
              (images_p1 s1))
   \<and> (SendDocument d \<in> set (snd (convert env s)) \<longrightarrow>
        (\<forall>b \<in> set (images s). CallSharp b \<in> set (snd (convert env s)))
      \<and> (\<exists>ds. map (sharp_toBuffer env) (images s) = map Some ds
            \<and> pdf_pages (ops_of (snd (convert env s)))
                = map (\<lambda>image_buffer.
                    \<lparr>page_size = None,
                     page_images = [(image_buffer, FitCentered 500 700)]\<rparr>) ds))"
proof -
  have a: "images_p1 (fst (processImage_p1 env fid s1)) \<noteq> images_p1 s1 \<longrightarrow>
      (\<exists>img. images_p1 (fst (processImage_p1 env fid s1)) = images_p1 s1 @ [img]
          \<and> sharp_metadata env (buffer img) = Some (width img, height img))"
    by (simp add: processImage_p1_session fetch_and_normalize_p1_cases split: option.splits)
  have c: "pdf_pages (ops_of (snd (convert_p1 env s1)))
          = map (\<lambda>img.
              \<lparr>page_size = Some (of_nat (width img) * 72 / 96, of_nat (height img) * 72 / 96),
               page_images =
                 [(buffer img,
                   AtOrigin (of_nat (width img) * 72 / 96) (of_nat (height img) * 72 / 96))]\<rparr>)
              (images_p1 s1)"
    if "SendDocument d \<in> set (snd (convert_p1 env s1))"
    using convert_p1_pages [OF that] by (simp add: page_of_p1_def page_size_p1_def)
  have e: "(\<forall>b \<in> set (images s). CallSharp b \<in> set (snd (convert env s)))
      \<and> (\<exists>ds. map (sharp_toBuffer env) (images s) = map Some ds
            \<and> pdf_pages (ops_of (snd (convert env s)))
                = map (\<lambda>image_buffer.
                    \<lparr>page_size = None,
                     page_images = [(image_buffer, FitCentered 500 700)]\<rparr>) ds)"
    if "SendDocument d \<in> set (snd (convert env s))"
    using convert_calls_sharp [OF that] convert_pages [OF that] by (auto simp: page_of_def)
  from a convert_p1_no_decode [of b env s1] c e show ?thesis by blast
qed

theorem stored_dimensions_witness:
  "images_p1 (fst (processImage_p1 env_ok ''a'' \<lparr>images_p1 = [], timestamp = None\<rparr>))
      = [\<lparr>buffer = [15], width = 640, height = 480\<rparr>]
   \<and> sharp_metadata env_ok [15] = Some (640, 480)
   \<and> SendDocument [1, 2, 3, 4] \<in> set (snd (convert_p1 env_ok
        \<lparr>images_p1 = [\<lparr>buffer = [7], width = 640, height = 480\<rparr>], timestamp = None\<rparr>))
   \<and> pdf_pages (ops_of (snd (convert_p1 env_ok
        \<lparr>images_p1 = [\<lparr>buffer = [7], width = 640, height = 480\<rparr>], timestamp = None\<rparr>)))
      = [\<lparr>page_size = Some (480, 360), page_images = [([7], AtOrigin 480 360)]\<rparr>]
   \<and> CallSharp [7] \<notin> set (snd (convert_p1 env_ok
        \<lparr>images_p1 = [\<lparr>buffer = [7], width = 640, height = 480\<rparr>], timestamp = None\<rparr>))
   \<and> SendDocument [1, 2, 3] \<in> set (snd (convert env_ok \<lparr>images = [[7]], lastActive = 1\<rparr>))
   \<and> CallSharp [7] \<in> set (snd (convert env_ok \<lparr>images = [[7]], lastActive = 1\<rparr>))
   \<and> pdf_pages (ops_of (snd (convert env_ok \<lparr>images = [[7]], lastActive = 1\<rparr>)))
      = [\<lparr>page_size = None, page_images = [([7], FitCentered 500 700)]\<rparr>]"
  using
    stored_dimensions [where env = env_ok and fid = "''a''"
      and ?s1.0 = "\<lparr>images_p1 = [], timestamp = None\<rparr>" and b = "[7]" and d = "[1, 2, 3]"
      and s = "\<lparr>images = [[7]], lastActive = 1\<rparr>"]
    stored_dimensions [where env = env_ok and fid = "''a''"
      and ?s1.0 = "\<lparr>images_p1 = [\<lparr>buffer = [7], width = 640, height = 480\<rparr>], timestamp = None\<rparr>"
      and b = "[7]" and d = "[1, 2, 3, 4]"
      and s = "\<lparr>images = [[7]], lastActive = 1\<rparr>"]
    ok_convert [of 1] ok_convert_p1
  by (simp add: processImage_p1_def fetch_and_normalize_p1_def MAX_IMAGES_def pdf_pages_def
      env_ok_def)


text \<open>
  In \<^verbatim>\<open>index.js\<close> the stored image is the byte buffer alone, \<^verbatim>\<open>/convert\<close> calls sharp on
  it, and when sharp fails there the conversion fails.
\<close>

theorem stored_dimensions_counterexample:
  "images (fst (processImage env_ok ''a'' \<lparr>images = [], lastActive = 1\<rparr>)) = [[15]]
   \<and> CallSharp [15] \<in> set (snd (convert env_ok \<lparr>images = [[15]], lastActive = 1\<rparr>))
   \<and> convert (env_ok\<lparr>sharp_toBuffer := \<lambda>b. None\<rparr>) \<lparr>images = [[15]], lastActive = 1\<rparr>
       = (\<lparr>images = [[15]], lastActive = 1\<rparr>,
          [SendReply CreatingPdf, PdfOp (NewDocument True), CallSharp [15],
           LogError DecodeFailed, SendReply (PdfFailed DecodeFailed)])"
  by (simp add: processImage_def fetch_and_normalize_def MAX_IMAGES_PER_USER_def convert_def
      build_pdf_def pdf_call_def MAX_PDF_SIZE_def env_ok_def)


end
